theory Spec2Isabelle
  imports Main
begin

section \<open>Domain model (internal/domain/models.go)\<close>

text \<open>
  A Go \<^verbatim>\<open>domain.Record\<close> is a \<^verbatim>\<open>map[string]interface{}\<close>: a finite map from column
  names to dynamically typed scalars. The pipeline never inspects a scalar beyond asking
  whether it is \<^verbatim>\<open>nil\<close> (SQL NULL), so the scalars are a small datatype.
  Records handed around by the connectors are always allocated (\<^verbatim>\<open>make\<close>); only a
  transform function can return the \<^verbatim>\<open>nil\<close> map, which is \<open>None\<close> below.
\<close>

datatype val = Nil | Str string | Num int | Flag bool | Stamp nat

type_synonym Record = "string \<rightharpoonup> val"

record ColumnInfo =
  Name :: string
  DataType :: string
  IsNullable :: bool
  AutoIncrement :: bool

record TableSchema =
  Columns :: "ColumnInfo list"
  PrimaryKey :: string
  Indexes :: "string list"

text \<open>
  \<^verbatim>\<open>strings.ToLower\<close> on the ASCII letters; every other byte is left as it is (the
  Unicode case tables of the Go library are not part of the repository).
\<close>

definition ToLower_char :: "char \<Rightarrow> char" where
  "ToLower_char c =
     (case map_of (zip ''ABCDEFGHIJKLMNOPQRSTUVWXYZ'' ''abcdefghijklmnopqrstuvwxyz'') c of
        Some l \<Rightarrow> l
      | None \<Rightarrow> c)"

definition ToLower :: "string \<Rightarrow> string" where
  "ToLower s = map ToLower_char s"

text \<open>\<^verbatim>\<open>strings.ReplaceAll(s, "_", "")\<close>.\<close>

definition RemoveUnderscores :: "string \<Rightarrow> string" where
  "RemoveUnderscores s = filter (\<lambda>c. c \<noteq> CHR ''_'') s"

definition GetColumnName :: "ColumnInfo \<Rightarrow> bool \<Rightarrow> string" where
  "GetColumnName c isMapping =
     (if isMapping then ToLower (RemoveUnderscores (Name c)) else Name c)"


section \<open>Transform functions (cmd: TransformForModelPhones, TransformForAllImsi)\<close>

text \<open>
  A Go map is a reference: a transform \<^verbatim>\<open>func(domain.Record) domain.Record\<close> may write
  to the map it is given. A transform is therefore modelled by what it returns
  (\<open>None\<close> for the \<^verbatim>\<open>nil\<close> map) together with the contents of its argument after
  the call.
\<close>

type_synonym TransformFn = "Record \<Rightarrow> Record option \<times> Record"

text \<open>The default of \<^verbatim>\<open>NewDataProcessor\<close>: \<^verbatim>\<open>func(r) { return r }\<close>.\<close>

definition identityTransform :: TransformFn where
  "identityTransform r = (Some r, r)"

text \<open>
  \<^verbatim>\<open>if v, exists := r[old]; exists { r[new] = v; delete(r, old) }\<close>, the statement
  the registered transforms are made of.
\<close>

definition renameKey :: "string \<Rightarrow> string \<Rightarrow> Record \<Rightarrow> Record" where
  "renameKey old new r =
     (case r old of
        Some v \<Rightarrow> (r(new \<mapsto> v))(old := None)
      | None \<Rightarrow> r)"

definition TransformForModelPhones :: TransformFn where
  "TransformForModelPhones r =
     (let r1 = renameKey ''VENDOR_NAME'' ''vendorName'' r;
          r2 = renameKey ''MODEL_NAME'' ''modelName'' r1;
          r3 = renameKey ''TAC'' ''tac'' r2
      in (Some r3, r3))"

definition TransformForAllImsi :: TransformFn where
  "TransformForAllImsi r =
     (let r1 = renameKey ''CLIENT'' ''client'' r;
          r2 = renameKey ''CONTRACT'' ''contract'' r1;
          r3 = renameKey ''ICCID'' ''iccid'' r2;
          r4 = renameKey ''IMSI'' ''imsi'' r3;
          r5 = renameKey ''MSISDN'' ''msisdn'' r4;
          r6 = renameKey ''STATUS'' ''status'' r5;
          r7 = renameKey ''TYPESIM'' ''typeSim'' r6;
          r8 = renameKey ''DEPARTMENT'' ''department'' r7
      in (Some r8, r8))"


section \<open>Data processor (DataProcessor)\<close>

text \<open>
  The processor's fields. \<^verbatim>\<open>sqlOpts\<close> is read only while a service is constructed and
  is left out; the mutex guards calls that are modelled as atomic steps.
\<close>

record DataProcessor =
  buffer :: "Record list"
  sourceData :: "Record list"
  transform :: "TransformFn option"
  sourceSchema :: "TableSchema option"
  targetSchema :: "TableSchema option"
  columnMapping :: "string \<rightharpoonup> string"
  dataLoaded :: bool

text \<open>Outcomes: a returned error (with its message) or a runtime panic.\<close>

datatype failure = Error string | Panic

subsection \<open>createColumnMapping\<close>

text \<open>
  The inner loop: the first target column whose normalised name equals the source
  column's normalised name is stored under the source column's name, then \<^verbatim>\<open>break\<close>.
\<close>

fun matchTarget :: "ColumnInfo \<Rightarrow> ColumnInfo list \<Rightarrow> (string \<rightharpoonup> string) \<Rightarrow> (string \<rightharpoonup> string)" where
  "matchTarget srcCol [] m = m"
| "matchTarget srcCol (tgtCol # rest) m =
     (if GetColumnName srcCol True = GetColumnName tgtCol True
      then m(Name srcCol \<mapsto> Name tgtCol)
      else matchTarget srcCol rest m)"

fun mapSources :: "ColumnInfo list \<Rightarrow> ColumnInfo list \<Rightarrow> (string \<rightharpoonup> string) \<Rightarrow> (string \<rightharpoonup> string)" where
  "mapSources [] tgtCols m = m"
| "mapSources (srcCol # rest) tgtCols m = mapSources rest tgtCols (matchTarget srcCol tgtCols m)"

definition createColumnMapping :: "DataProcessor \<Rightarrow> DataProcessor" where
  "createColumnMapping p =
     (case (sourceSchema p, targetSchema p) of
        (Some src, Some tgt) \<Rightarrow>
          p\<lparr>columnMapping := mapSources (Columns src) (Columns tgt) (columnMapping p)\<rparr>
      | _ \<Rightarrow> p)"

subsection \<open>Construction and options\<close>

definition WithTransform :: "TransformFn option \<Rightarrow> DataProcessor \<Rightarrow> DataProcessor" where
  "WithTransform fn p = p\<lparr>transform := fn\<rparr>"

definition WithSchemas :: "TableSchema option \<Rightarrow> TableSchema option \<Rightarrow> DataProcessor \<Rightarrow> DataProcessor" where
  "WithSchemas src tgt p = p\<lparr>sourceSchema := src, targetSchema := tgt\<rparr>"

definition NewDataProcessor :: "(DataProcessor \<Rightarrow> DataProcessor) list \<Rightarrow> DataProcessor" where
  "NewDataProcessor opts =
     (let p0 = \<lparr>buffer = [], sourceData = [], transform = Some identityTransform,
                sourceSchema = None, targetSchema = None, columnMapping = Map.empty,
                dataLoaded = False\<rparr>;
          p = fold (\<lambda>opt q. opt q) opts p0
      in if sourceSchema p \<noteq> None \<and> targetSchema p \<noteq> None then createColumnMapping p else p)"

definition SetSourceData :: "Record list \<Rightarrow> DataProcessor \<Rightarrow> DataProcessor" where
  "SetSourceData rows p = p\<lparr>sourceData := rows, dataLoaded := (rows \<noteq> [])\<rparr>"

definition HasPreloadedData :: "DataProcessor \<Rightarrow> bool" where
  "HasPreloadedData p = dataLoaded p"

subsection \<open>processRecord and Process\<close>

text \<open>
  The name a schema column's value is stored under: the column's own name, replaced by
  the mapped name when a target schema is set and the mapping has the column.
\<close>

definition targetName :: "DataProcessor \<Rightarrow> ColumnInfo \<Rightarrow> string" where
  "targetName p col =
     (case targetSchema p of
        None \<Rightarrow> Name col
      | Some _ \<Rightarrow> (case columnMapping p (Name col) of Some mapped \<Rightarrow> mapped | None \<Rightarrow> Name col))"

text \<open>
  The loop over the source schema's columns. The value is looked up under
  \<^verbatim>\<open>col.GetColumnName(false)\<close> and then under \<^verbatim>\<open>col.Name\<close>; a column the record does
  not have is skipped.
\<close>

fun mapColumns :: "DataProcessor \<Rightarrow> Record \<Rightarrow> ColumnInfo list \<Rightarrow> Record \<Rightarrow> Record" where
  "mapColumns p rec [] processed = processed"
| "mapColumns p rec (col # cols) processed =
     (case (case rec (GetColumnName col False) of Some v \<Rightarrow> Some v | None \<Rightarrow> rec (Name col)) of
        None \<Rightarrow> mapColumns p rec cols processed
      | Some v \<Rightarrow> mapColumns p rec cols (processed(targetName p col \<mapsto> v)))"

text \<open>
  \<open>processRecord\<close> returns the processed record (\<open>None\<close> when the transform returns
  \<^verbatim>\<open>nil\<close>) and the contents of the input record after the call. Without a source schema
  the transform receives the input record itself; with one it receives a fresh map.
\<close>

definition processRecord :: "DataProcessor \<Rightarrow> Record \<Rightarrow> Record option \<times> Record" where
  "processRecord p rec =
     (case sourceSchema p of
        None \<Rightarrow> (case transform p of Some f \<Rightarrow> f rec | None \<Rightarrow> (Some rec, rec))
      | Some ss \<Rightarrow>
          (let processed = mapColumns p rec (Columns ss) Map.empty
           in case transform p of
                Some f \<Rightarrow> (fst (f processed), rec)
              | None \<Rightarrow> (Some processed, rec)))"

fun Process_loop :: "DataProcessor \<Rightarrow> Record list \<Rightarrow> Record list \<Rightarrow> Record list" where
  "Process_loop p [] buf = buf"
| "Process_loop p (rec # rest) buf =
     (case fst (processRecord p rec) of
        None \<Rightarrow> Process_loop p rest buf
      | Some processed \<Rightarrow> Process_loop p rest (buf @ [processed]))"

definition Process :: "DataProcessor \<Rightarrow> Record list \<Rightarrow> DataProcessor" where
  "Process p batch = p\<lparr>buffer := Process_loop p batch (buffer p)\<rparr>"

subsection \<open>GetBatch, GetPreloadedBatch, GetTargetColumns\<close>

text \<open>
  Go's \<^verbatim>\<open>int\<close> is taken as 64 bits wide; \<open>wrap64\<close> is two's-complement wrap-around of
  a sum. A slice expression \<^verbatim>\<open>s[lo:hi]\<close> panics unless \<open>0 \<le> lo \<le> hi \<le> cap s\<close>.
\<close>

definition wrap64 :: "int \<Rightarrow> int" where
  "wrap64 x = (x + 2 ^ 63) mod 2 ^ 64 - 2 ^ 63"

definition len :: "'a list \<Rightarrow> int" where
  "len xs = int (length xs)"

text \<open>The processor's \<^verbatim>\<open>GetBatch(size)\<close>; \<^verbatim>\<open>p.buffer[:size]\<close> panics on a negative size.\<close>

definition GetBatch :: "DataProcessor \<Rightarrow> int \<Rightarrow> failure + (Record list \<times> DataProcessor)" where
  "GetBatch p n =
     (let size' = (if n > len (buffer p) then len (buffer p) else n)
      in if size' < 0 then Inl Panic
         else Inr (take (nat size') (buffer p), p\<lparr>buffer := drop (nat size') (buffer p)\<rparr>))"

definition BufferSize :: "DataProcessor \<Rightarrow> int" where
  "BufferSize p = len (buffer p)"

text \<open>
  \<open>GetPreloadedBatch\<close> returns the processed batch and the processor, whose preloaded
  records are left as \<open>processRecord\<close> leaves its argument.
\<close>

definition GetPreloadedBatch :: "DataProcessor \<Rightarrow> int \<Rightarrow> int \<Rightarrow> (failure + Record list) \<times> DataProcessor" where
  "GetPreloadedBatch p offset batchSize =
     (if \<not> dataLoaded p \<or> offset \<ge> len (sourceData p) then (Inr [], p)
      else
        (let end0 = wrap64 (offset + batchSize);
             end1 = (if end0 > len (sourceData p) then len (sourceData p) else end0)
         in if offset < 0 \<or> end1 < offset then (Inl Panic, p)
            else
              (let before = take (nat offset) (sourceData p);
                   slice = take (nat (end1 - offset)) (drop (nat offset) (sourceData p));
                   after = drop (nat end1) (sourceData p)
               in (Inr (List.map_filter (\<lambda>rec. fst (processRecord p rec)) slice),
                   p\<lparr>sourceData := before @ map (\<lambda>rec. snd (processRecord p rec)) slice @ after\<rparr>))))"

definition GetTargetColumns :: "DataProcessor \<Rightarrow> string list" where
  "GetTargetColumns p =
     (case targetSchema p of
        Some ts \<Rightarrow> map Name (filter (\<lambda>col. \<not> AutoIncrement col) (Columns ts))
      | None \<Rightarrow> [])"

section \<open>The database behind a connection\<close>

text \<open>
  The connectors talk to a SQL engine through \<^verbatim>\<open>database/sql\<close>. The engine is modelled
  as a store of named tables, each a list of rows in the engine's (stable) row order,
  together with the statements received so far and a fault schedule: the \<open>i\<close>-th
  driver call fails when \<open>faulty\<close> holds of \<open>i\<close>, whatever the statement (a network
  error, a constraint violation, a lost connection). A failing call changes nothing but
  the trace. Rows written inside a transaction become visible at its commit; table
  definitions (drop, create, rename) take effect at once and are not undone by a
  rollback, as on both engines. A column a stored row has no key for reads as NULL.
\<close>

type_synonym tables = "string \<rightharpoonup> Record list"

datatype stmt =
    TxBegin
  | TxCommit
  | TxRollback
  | DropIfExists string
  | CreateTable string TableSchema
  | CreateLike string string
  | PrepareInsert string "string set"
  | InsertRows string "string set" "Record list"
  | RenameTables "(string \<times> string) list"
  | AlterRename string string
  | SelectCount string string
  | SelectLimit "string list" string int int
  | SelectRowNumber "string list" string string int int
  | CallProc string "val list"

datatype reply = Failed | Done | Count int | Rows "Record list" | Affected int

record db =
  tables :: tables
  pending :: "(string \<times> Record list) list"
  trace :: "stmt list"
  faulty :: "nat \<Rightarrow> bool"
  now :: string
  procs :: "string \<Rightarrow> val list \<Rightarrow> tables \<Rightarrow> (tables \<times> int) option"

definition notNull :: "val option \<Rightarrow> bool" where
  "notNull x = (case x of Some v \<Rightarrow> v \<noteq> Nil | None \<Rightarrow> False)"

text \<open>The row an INSERT with column list \<open>cols\<close> stores: a missing key is bound to NULL.\<close>

definition project :: "string set \<Rightarrow> Record \<Rightarrow> Record" where
  "project cols r = (\<lambda>k. if k \<in> cols then Some (case r k of Some v \<Rightarrow> v | None \<Rightarrow> Nil) else None)"

text \<open>The row a SELECT returns: the listed columns, or the whole row for \<^verbatim>\<open>*\<close>.\<close>

definition selectCols :: "string list \<Rightarrow> Record \<Rightarrow> Record" where
  "selectCols cols r = (if cols = [] then r else project (set cols) r)"

fun rename1 :: "string \<times> string \<Rightarrow> tables \<Rightarrow> tables option" where
  "rename1 (a, b) T =
     (case T a of
        None \<Rightarrow> None
      | Some rows \<Rightarrow> (if T b \<noteq> None then None else Some ((T(a := None))(b \<mapsto> rows))))"

fun renames :: "(string \<times> string) list \<Rightarrow> tables \<Rightarrow> tables option" where
  "renames [] T = Some T"
| "renames (ab # rest) T = (case rename1 ab T of None \<Rightarrow> None | Some T' \<Rightarrow> renames rest T')"

fun commit :: "(string \<times> Record list) list \<Rightarrow> tables \<Rightarrow> tables" where
  "commit [] T = T"
| "commit ((t, rows) # rest) T =
     commit rest (case T t of None \<Rightarrow> T | Some old \<Rightarrow> T(t \<mapsto> old @ rows))"

text \<open>What the engine does with a statement it accepts, or \<open>Failed\<close> when it rejects it.\<close>

fun run :: "stmt \<Rightarrow> db \<Rightarrow> reply \<times> db" where
  "run TxBegin d = (Done, d\<lparr>pending := []\<rparr>)"
| "run TxCommit d = (Done, d\<lparr>tables := commit (pending d) (tables d), pending := []\<rparr>)"
| "run TxRollback d = (Done, d\<lparr>pending := []\<rparr>)"
| "run (DropIfExists t) d = (Done, d\<lparr>tables := (tables d)(t := None)\<rparr>)"
| "run (CreateTable t sch) d =
     (if tables d t \<noteq> None then (Failed, d) else (Done, d\<lparr>tables := (tables d)(t \<mapsto> [])\<rparr>))"
| "run (CreateLike t orig) d =
     (if tables d t \<noteq> None \<or> tables d orig = None then (Failed, d)
      else (Done, d\<lparr>tables := (tables d)(t \<mapsto> [])\<rparr>))"
| "run (PrepareInsert t cols) d = (if tables d t = None then (Failed, d) else (Done, d))"
| "run (InsertRows t cols rows) d =
     (if tables d t = None then (Failed, d)
      else (Done, d\<lparr>pending := pending d @ [(t, map (project cols) rows)]\<rparr>))"
| "run (RenameTables pairs) d =
     (case renames pairs (tables d) of None \<Rightarrow> (Failed, d) | Some T \<Rightarrow> (Done, d\<lparr>tables := T\<rparr>))"
| "run (AlterRename a b) d =
     (case rename1 (a, b) (tables d) of None \<Rightarrow> (Failed, d) | Some T \<Rightarrow> (Done, d\<lparr>tables := T\<rparr>))"
| "run (SelectCount column t) d =
     (case tables d t of
        None \<Rightarrow> (Failed, d)
      | Some rows \<Rightarrow>
          (Count (if column = ''*'' then len rows else len (filter (\<lambda>r. notNull (r column)) rows)), d))"
| "run (SelectLimit cols t limit offset) d =
     (case tables d t of
        None \<Rightarrow> (Failed, d)
      | Some rows \<Rightarrow> (Rows (map (selectCols cols) (take (nat limit) (drop (nat offset) rows))), d))"
| "run (SelectRowNumber cols t pk lo hi) d =
     (case tables d t of
        None \<Rightarrow> (Failed, d)
      | Some rows \<Rightarrow>
          (if pk = [] \<or> pk \<notin> set cols then (Failed, d)
           else (Rows (map (selectCols cols)
                        (filter (\<lambda>r. notNull (r pk)) (take (nat (hi - lo)) (drop (nat lo) rows)))), d)))"
| "run (CallProc name args) d =
     (case procs d name args (tables d) of
        None \<Rightarrow> (Failed, d)
      | Some (T, n) \<Rightarrow> (Affected n, d\<lparr>tables := T\<rparr>))"

text \<open>One call into the driver: recorded, then failed by the schedule or run.\<close>

definition driver :: "stmt \<Rightarrow> db \<Rightarrow> reply \<times> db" where
  "driver st d =
     (let d' = d\<lparr>trace := trace d @ [st]\<rparr>
      in if faulty d (length (trace d)) then (Failed, d') else run st d')"


text \<open>
  Observations on the statements a database has received: how many of them satisfy a
  predicate, and which of them rename a table.
\<close>

definition issued :: "(stmt \<Rightarrow> bool) \<Rightarrow> db \<Rightarrow> nat" where
  "issued P d = length (filter P (trace d))"

fun isRename :: "stmt \<Rightarrow> bool" where
  "isRename (RenameTables pairs) = True"
| "isRename (AlterRename a b) = True"
| "isRename st = False"

text \<open>The table a statement creates, drops or writes rows to, if any.\<close>

fun written :: "stmt \<Rightarrow> string set" where
  "written (DropIfExists t) = {t}"
| "written (CreateTable t sch) = {t}"
| "written (CreateLike t orig) = {t}"
| "written (InsertRows t cols rows) = {t}"
| "written st = {}"

section \<open>Connectors (MariaDBConnector, OracleConnector)\<close>

text \<open>
  The two implementations of the \<^verbatim>\<open>DatabaseConnector\<close> interface, told apart by the
  engine. Each method is the sequence of driver calls of the source, with the source's
  error returns; \<^verbatim>\<open>tx.Rollback()\<close> on the \<^verbatim>\<open>nil\<close> transaction of a failed
  \<^verbatim>\<open>Begin\<close> is a nil dereference, hence \<open>Panic\<close>, and so is reading the columns of a
  \<^verbatim>\<open>nil\<close> schema. The several failure points of reading a result set (query, scan,
  iteration) return the same way and are one driver call.
\<close>

datatype engine = MariaDB | Oracle

definition GetCount :: "engine \<Rightarrow> TableSchema option \<Rightarrow> db \<Rightarrow> (failure + int) \<times> db" where
  "GetCount e schema d =
     (case schema of
        None \<Rightarrow> (Inl (Error ''schema cannot be nil''), d)
      | Some sch \<Rightarrow>
          (let column = (case Columns sch of [] \<Rightarrow> ''*'' | c # _ \<Rightarrow> Name c)
           in case driver (SelectCount column (PrimaryKey sch)) d of
                (Count n, d1) \<Rightarrow> (Inr n, d1)
              | (_, d1) \<Rightarrow> (Inl (Error ''count query failed''), d1)))"

definition pageQuery :: "engine \<Rightarrow> string \<Rightarrow> int \<Rightarrow> int \<Rightarrow> TableSchema \<Rightarrow> stmt" where
  "pageQuery e tableName offset batchSize sch =
     (case e of
        MariaDB \<Rightarrow> SelectLimit (map Name (Columns sch)) tableName batchSize offset
      | Oracle \<Rightarrow>
          SelectRowNumber (map Name (Columns sch)) tableName (PrimaryKey sch) offset
            (wrap64 (offset + batchSize)))"

definition GetBatch_db :: "engine \<Rightarrow> string \<Rightarrow> int \<Rightarrow> int \<Rightarrow> TableSchema option \<Rightarrow> db \<Rightarrow> (failure + Record list) \<times> db" where
  "GetBatch_db e tableName offset batchSize schema d =
     (if batchSize \<le> 0 then (Inl (Error ''batchSize must be positive''), d)
      else if offset < 0 then (Inl (Error ''offset cannot be negative''), d)
      else case schema of
             None \<Rightarrow> (Inl Panic, d)
           | Some sch \<Rightarrow>
               (case driver (pageQuery e tableName offset batchSize sch) d of
                  (Rows rs, d1) \<Rightarrow> (Inr rs, d1)
                | (_, d1) \<Rightarrow> (Inl (Error ''query failed''), d1)))"

definition createStmt :: "string \<Rightarrow> string \<Rightarrow> TableSchema \<Rightarrow> stmt" where
  "createStmt originalTable tempTable sch =
     (if Columns sch \<noteq> [] then CreateTable tempTable sch else CreateLike tempTable originalTable)"

fun CreateTempTable :: "engine \<Rightarrow> string \<Rightarrow> string \<Rightarrow> TableSchema option \<Rightarrow> db \<Rightarrow> (failure + unit) \<times> db" where
  "CreateTempTable MariaDB originalTable tempTable schema d =
     (case driver TxBegin d of (r1, d1) \<Rightarrow>
        if r1 = Failed then (Inl Panic, d1)
        else case driver (DropIfExists tempTable) d1 of (r2, d2) \<Rightarrow>
          if r2 = Failed then (Inl (Error ''drop temp table failed''), snd (driver TxRollback d2))
          else case schema of
                 None \<Rightarrow> (Inl Panic, d2)
               | Some sch \<Rightarrow>
                   (case driver (createStmt originalTable tempTable sch) d2 of (r3, d3) \<Rightarrow>
                      if r3 = Failed
                      then (Inl (Error ''create temp table failed''), snd (driver TxRollback d3))
                      else case driver TxCommit d3 of (r4, d4) \<Rightarrow>
                        if r4 = Failed then (Inl (Error ''commit''), d4) else (Inr (), d4)))"
| "CreateTempTable Oracle originalTable tempTable schema d =
     (case driver TxBegin d of (r1, d1) \<Rightarrow>
        if r1 = Failed then (Inl (Error ''transaction begin failed''), d1)
        else case driver (DropIfExists tempTable) d1 of (r2, d2) \<Rightarrow>
          if r2 = Failed then (Inl (Error ''drop temp table failed''), snd (driver TxRollback d2))
          else case schema of
                 None \<Rightarrow> (Inl Panic, snd (driver TxRollback d2))
               | Some sch \<Rightarrow>
                   (case driver (createStmt originalTable tempTable sch) d2 of (r3, d3) \<Rightarrow>
                      if r3 = Failed
                      then (Inl (Error ''create temp table failed''), snd (driver TxRollback d3))
                      else case driver TxCommit d3 of (r4, d4) \<Rightarrow>
                        if r4 = Failed then (Inl (Error ''commit''), d4) else (Inr (), d4)))"

text \<open>The Oracle loop over the records: one \<^verbatim>\<open>stmt.Exec\<close> each, stopping at a failure.\<close>

fun insertEach :: "string \<Rightarrow> string set \<Rightarrow> Record list \<Rightarrow> db \<Rightarrow> bool \<times> db" where
  "insertEach t cols [] d = (True, d)"
| "insertEach t cols (r # rs) d =
     (case driver (InsertRows t cols [r]) d of (rep, d1) \<Rightarrow>
        if rep = Failed then (False, d1) else insertEach t cols rs d1)"

text \<open>
  The column list of an insert: the given one, or the keys of the first record when none
  is given (the order of the keys does not matter to the row stored).
\<close>

definition insertColumns :: "string list \<Rightarrow> Record \<Rightarrow> string set" where
  "insertColumns columns first = (if columns = [] then dom first else set columns)"

fun InsertBatch :: "engine \<Rightarrow> string \<Rightarrow> Record list \<Rightarrow> string list \<Rightarrow> db \<Rightarrow> (failure + unit) \<times> db" where
  "InsertBatch e tableName [] columns d = (Inr (), d)"
| "InsertBatch MariaDB tableName (r # rs) columns d =
     (case driver TxBegin d of (r1, d1) \<Rightarrow>
        if r1 = Failed then (Inl (Error ''transaction begin failed''), d1)
        else case driver (InsertRows tableName (insertColumns columns r) (r # rs)) d1 of (r2, d2) \<Rightarrow>
          if r2 = Failed then (Inl (Error ''insert failed''), snd (driver TxRollback d2))
          else case driver TxCommit d2 of (r3, d3) \<Rightarrow>
            if r3 = Failed then (Inl (Error ''commit''), d3) else (Inr (), d3))"
| "InsertBatch Oracle tableName (r # rs) columns d =
     (case driver TxBegin d of (r1, d1) \<Rightarrow>
        if r1 = Failed then (Inl (Error ''transaction begin failed''), d1)
        else case driver (PrepareInsert tableName (insertColumns columns r)) d1 of (r2, d2) \<Rightarrow>
          if r2 = Failed then (Inl (Error ''prepare statement failed''), d2)
          else case insertEach tableName (insertColumns columns r) (r # rs) d2 of (ok, d3) \<Rightarrow>
            if \<not> ok then (Inl (Error ''insert failed''), snd (driver TxRollback d3))
            else case driver TxCommit d3 of (r4, d4) \<Rightarrow>
              if r4 = Failed then (Inl (Error ''commit''), d4) else (Inr (), d4))"

definition DropTable :: "engine \<Rightarrow> string \<Rightarrow> db \<Rightarrow> (failure + unit) \<times> db" where
  "DropTable e tableName d =
     (case driver (DropIfExists tableName) d of (r, d1) \<Rightarrow>
        if r = Failed then (Inl (Error ''drop table failed''), d1) else (Inr (), d1))"

text \<open>The three Oracle renames, one \<^verbatim>\<open>tx.Exec\<close> each, stopping at a failure.\<close>

fun renameEach :: "(string \<times> string) list \<Rightarrow> db \<Rightarrow> bool \<times> db" where
  "renameEach [] d = (True, d)"
| "renameEach ((a, b) # rest) d =
     (case driver (AlterRename a b) d of (rep, d1) \<Rightarrow>
        if rep = Failed then (False, d1) else renameEach rest d1)"

definition backupName :: "engine \<Rightarrow> string \<Rightarrow> db \<Rightarrow> string" where
  "backupName e originalTable d =
     (case e of
        MariaDB \<Rightarrow> originalTable @ ''_backup''
      | Oracle \<Rightarrow> originalTable @ ''_backup_'' @ now d)"

fun SwapTables :: "engine \<Rightarrow> string \<Rightarrow> string \<Rightarrow> db \<Rightarrow> (failure + unit) \<times> db" where
  "SwapTables MariaDB originalTable tempTable d =
     (let backupTable = backupName MariaDB originalTable d;
          d0 = snd (DropTable MariaDB backupTable d)
      in case driver TxBegin d0 of (r1, d1) \<Rightarrow>
        if r1 = Failed then (Inl Panic, d1)
        else case driver (DropIfExists backupTable) d1 of (r2, d2) \<Rightarrow>
          if r2 = Failed then (Inl (Error ''drop backup table failed''), snd (driver TxRollback d2))
          else case driver (RenameTables [(originalTable, backupTable), (tempTable, originalTable)]) d2 of (r3, d3) \<Rightarrow>
            if r3 = Failed then (Inl (Error ''swap tables failed''), snd (driver TxRollback d3))
            else case driver TxCommit d3 of (r4, d4) \<Rightarrow>
              if r4 = Failed then (Inl (Error ''commit''), d4) else (Inr (), d4))"
| "SwapTables Oracle originalTable tempTable d =
     (let backupTable = backupName Oracle originalTable d
      in case driver TxBegin d of (r1, d1) \<Rightarrow>
        if r1 = Failed then (Inl (Error ''transaction begin failed''), d1)
        else case renameEach [(originalTable, backupTable), (tempTable, originalTable),
                              (backupTable, tempTable)] d1 of (ok, d2) \<Rightarrow>
          if \<not> ok then (Inl (Error ''rename operation failed''), snd (driver TxRollback d2))
          else case driver TxCommit d2 of (r3, d3) \<Rightarrow>
            if r3 = Failed then (Inl (Error ''commit''), d3) else (Inr (), d3))"

fun ExecuteProcedure :: "engine \<Rightarrow> string \<Rightarrow> val list \<Rightarrow> db \<Rightarrow> (failure + int) \<times> db" where
  "ExecuteProcedure MariaDB procName args d =
     (case driver (CallProc procName args) d of
        (Affected n, d1) \<Rightarrow> (Inr n, d1)
      | (_, d1) \<Rightarrow> (Inl (Error ''failed to execute procedure''), d1))"
| "ExecuteProcedure Oracle procName args d = (Inr 0, d)"

section \<open>Replication job (SyncService)\<close>

text \<open>
  A connector value names its engine and the connection it owns; the world maps each
  connection to the database behind it, so a job whose source and target are the same
  connection reads and writes one database.
\<close>

record DatabaseConnector =
  engine_of :: engine
  conn :: string

type_synonym world = "string \<Rightarrow> db"

definition on :: "DatabaseConnector \<Rightarrow> (engine \<Rightarrow> db \<Rightarrow> 'a \<times> db) \<Rightarrow> world \<Rightarrow> 'a \<times> world" where
  "on c f w = (case f (engine_of c) (w (conn c)) of (r, d) \<Rightarrow> (r, w(conn c := d)))"

record Procedure =
  ProcedureName :: string
  Params :: "val list"

text \<open>The fields of \<^verbatim>\<open>config.SyncConfig\<close> a cycle reads.\<close>

record SyncConfig =
  SourceTable :: string
  TargetTable :: string
  BatchSize :: int
  TempTableSuffix :: string
  PostProcedure :: "Procedure list"

record SyncService =
  source :: DatabaseConnector
  target :: DatabaseConnector
  processor :: DataProcessor
  config :: SyncConfig
  sourceSchema_s :: "TableSchema option"
  targetSchema_s :: "TableSchema option"

text \<open>\<^verbatim>\<open>fmt.Errorf("prefix: %w", err)\<close>; a panic is not an error value and passes through.\<close>

definition wrapErr :: "string \<Rightarrow> failure \<Rightarrow> failure" where
  "wrapErr prefix f = (case f of Error m \<Rightarrow> Error (prefix @ '': '' @ m) | Panic \<Rightarrow> Panic)"

subsection \<open>processData\<close>

text \<open>
  The loop over the preloaded records:
  \<^verbatim>\<open>for offset := 0; offset < totalCount; offset += batchSize\<close>.
\<close>

function preloadLoop :: "SyncService \<Rightarrow> string \<Rightarrow> int \<Rightarrow> int \<Rightarrow> DataProcessor \<Rightarrow> world \<Rightarrow> int \<Rightarrow> (failure + unit) \<times> DataProcessor \<times> world" where
  "preloadLoop s tempTableName totalCount batchSize p w offset =
     (if offset < totalCount then
        (case GetPreloadedBatch p offset batchSize of
           (Inl f, p1) \<Rightarrow> (Inl f, p1, w)
         | (Inr processedBatch, p1) \<Rightarrow>
             if processedBatch = [] then (Inr (), p1, w)
             else
               (case on (target s) (\<lambda>e. InsertBatch e tempTableName processedBatch (GetTargetColumns p1)) w of
                  (Inl f, w1) \<Rightarrow> (Inl (wrapErr ''insert batch failed'' f), p1, w1)
                | (Inr u, w1) \<Rightarrow>
                    preloadLoop s tempTableName totalCount batchSize p1 w1 (wrap64 (offset + batchSize))))
      else (Inr (), p, w))"
  by pat_completeness auto
termination
  apply (relation "measure (\<lambda>(s, t, totalCount, batchSize, p, w, offset). nat (totalCount - offset))")
   apply simp
  subgoal premises prems for s tempTableName totalCount batchSize p w offset x y b
  proof -
    have "offset < wrap64 (offset + batchSize)"
    proof (rule ccontr)
      assume "\<not> offset < wrap64 (offset + batchSize)"
      with prems(2,3) have "b = []"
        by (auto simp: GetPreloadedBatch_def Let_def List.map_filter_simps split: if_splits)
      with prems(4) show False by simp
    qed
    with prems(1) show ?thesis by simp
  qed
  done

text \<open>
  The loop over the source table: \<^verbatim>\<open>for offset < totalCount\<close>. The offset stays below
  the row count and grows by the length of a batch held in memory, so the sum is taken
  without wrap-around.
\<close>

function streamLoop :: "SyncService \<Rightarrow> string \<Rightarrow> int \<Rightarrow> DataProcessor \<Rightarrow> world \<Rightarrow> int \<Rightarrow> int \<Rightarrow> (failure + unit) \<times> DataProcessor \<times> world" where
  "streamLoop s tempTableName totalCount p w offset batchSize =
     (if offset < totalCount then
        (case on (source s) (\<lambda>e. GetBatch_db e (SourceTable (config s)) offset batchSize (sourceSchema_s s)) w of
           (Inl f, w1) \<Rightarrow> (Inl f, p, w1)
         | (Inr batch, w1) \<Rightarrow>
             (case GetBatch (Process p batch) batchSize of
                Inl f \<Rightarrow> (Inl f, Process p batch, w1)
              | Inr (processedBatch, p2) \<Rightarrow>
                  if processedBatch = [] then (Inr (), p2, w1)
                  else
                    (let batchSize' = (if batchSize > len processedBatch then len processedBatch else batchSize)
                     in case on (target s) (\<lambda>e. InsertBatch e tempTableName processedBatch (GetTargetColumns p2)) w1 of
                          (Inl f, w2) \<Rightarrow> (Inl (wrapErr ''insert batch failed'' f), p2, w2)
                        | (Inr u, w2) \<Rightarrow>
                            streamLoop s tempTableName totalCount p2 w2 (offset + batchSize') batchSize')))
      else (Inr (), p, w))"
  by pat_completeness auto
termination
  apply (relation "measure (\<lambda>(s, t, totalCount, p, w, offset, batchSize). nat (totalCount - offset))")
   apply simp
  subgoal premises prems for s tempTableName totalCount p w offset batchSize x y b ba xa ya xb
  proof -
    have "0 < batchSize"
      using prems(2,3) by (auto simp: on_def GetBatch_db_def split: if_splits prod.splits)
    with prems(6,7) have "0 < xb" by (auto simp: len_def)
    with prems(1) show ?thesis by simp
  qed
  done

declare preloadLoop.simps [simp del] streamLoop.simps [simp del]

definition processData :: "SyncService \<Rightarrow> string \<Rightarrow> world \<Rightarrow> (failure + unit) \<times> DataProcessor \<times> world" where
  "processData s tempTableName w =
     (if HasPreloadedData (processor s)
      then preloadLoop s tempTableName (len (sourceData (processor s))) (BatchSize (config s))
             (processor s) w 0
      else
        (case on (source s) (\<lambda>e. GetCount e (sourceSchema_s s)) w of
           (Inl f, w1) \<Rightarrow> (Inl f, processor s, w1)
         | (Inr totalCount, w1) \<Rightarrow>
             streamLoop s tempTableName totalCount (processor s) w1 0 (BatchSize (config s))))"

subsection \<open>syncTables: one cycle\<close>

text \<open>The post-cycle procedures: a failing one is logged and the next one still runs.\<close>

fun runProcedures :: "DatabaseConnector \<Rightarrow> Procedure list \<Rightarrow> world \<Rightarrow> world" where
  "runProcedures c [] w = w"
| "runProcedures c (proc # rest) w =
     runProcedures c rest
       (snd (on c (\<lambda>e. ExecuteProcedure e (ProcedureName proc) (Params proc)) w))"

definition tempTableName_of :: "SyncService \<Rightarrow> string" where
  "tempTableName_of s = TargetTable (config s) @ TempTableSuffix (config s)"

definition syncTables :: "SyncService \<Rightarrow> world \<Rightarrow> (failure + unit) \<times> SyncService \<times> world" where
  "syncTables s w =
     (let tempTableName = tempTableName_of s
      in case on (target s) (\<lambda>e. CreateTempTable e (TargetTable (config s)) tempTableName
                                   (targetSchema (processor s))) w of
           (Inl f, w1) \<Rightarrow> (Inl (wrapErr ''create temp table failed'' f), s, w1)
         | (Inr u1, w1) \<Rightarrow>
             (case processData s tempTableName w1 of
                (Inl Panic, p2, w2) \<Rightarrow> (Inl Panic, s\<lparr>processor := p2\<rparr>, w2)
              | (Inl (Error m), p2, w2) \<Rightarrow>
                  (Inl (wrapErr ''data processing failed'' (Error m)), s\<lparr>processor := p2\<rparr>,
                   snd (on (target s) (\<lambda>e. DropTable e tempTableName) w2))
              | (Inr u2, p2, w2) \<Rightarrow>
                  (case on (target s) (\<lambda>e. SwapTables e (TargetTable (config s)) tempTableName) w2 of
                     (Inl f, w3) \<Rightarrow> (Inl (wrapErr ''table swap failed'' f), s\<lparr>processor := p2\<rparr>, w3)
                   | (Inr u3, w3) \<Rightarrow>
                       (Inr (), s\<lparr>processor := p2\<rparr>,
                        runProcedures (target s) (PostProcedure (config s))
                          (snd (on (target s) (\<lambda>e. DropTable e tempTableName) w3))))))"

subsection \<open>The calls of processData\<close>

text \<open>
  The heads of the iterations of the two loops of \<open>processData\<close> started in the world
  \<open>w0\<close>: the first head, and from a head the next one, when every call of the iteration
  has succeeded and the loop goes on.
\<close>

inductive preloadHead :: "SyncService \<Rightarrow> string \<Rightarrow> world \<Rightarrow> DataProcessor \<Rightarrow> world \<Rightarrow> int \<Rightarrow> bool"
  for s :: SyncService and tempTableName :: string and w0 :: world where
  preload_first:
    "HasPreloadedData (processor s) \<Longrightarrow> preloadHead s tempTableName w0 (processor s) w0 0"
| preload_next:
    "preloadHead s tempTableName w0 p w offset \<Longrightarrow>
     offset < len (sourceData (processor s)) \<Longrightarrow>
     GetPreloadedBatch p offset (BatchSize (config s)) = (Inr processedBatch, p1) \<Longrightarrow>
     processedBatch \<noteq> [] \<Longrightarrow>
     on (target s) (\<lambda>e. InsertBatch e tempTableName processedBatch (GetTargetColumns p1)) w = (Inr (), w1) \<Longrightarrow>
     preloadHead s tempTableName w0 p1 w1 (wrap64 (offset + BatchSize (config s)))"

inductive streamHead :: "SyncService \<Rightarrow> string \<Rightarrow> world \<Rightarrow> int \<Rightarrow> DataProcessor \<Rightarrow> world \<Rightarrow> int \<Rightarrow> int \<Rightarrow> bool"
  for s :: SyncService and tempTableName :: string and w0 :: world where
  stream_first:
    "\<not> HasPreloadedData (processor s) \<Longrightarrow>
     on (source s) (\<lambda>e. GetCount e (sourceSchema_s s)) w0 = (Inr totalCount, w1) \<Longrightarrow>
     streamHead s tempTableName w0 totalCount (processor s) w1 0 (BatchSize (config s))"
| stream_next:
    "streamHead s tempTableName w0 totalCount p w offset batchSize \<Longrightarrow>
     offset < totalCount \<Longrightarrow>
     on (source s) (\<lambda>e. GetBatch_db e (SourceTable (config s)) offset batchSize (sourceSchema_s s)) w
       = (Inr batch, w1) \<Longrightarrow>
     GetBatch (Process p batch) batchSize = Inr (processedBatch, p2) \<Longrightarrow>
     processedBatch \<noteq> [] \<Longrightarrow>
     on (target s) (\<lambda>e. InsertBatch e tempTableName processedBatch (GetTargetColumns p2)) w1
       = (Inr (), w2) \<Longrightarrow>
     batchSize' = (if batchSize > len processedBatch then len processedBatch else batchSize) \<Longrightarrow>
     streamHead s tempTableName w0 totalCount p2 w2 (offset + batchSize') batchSize'"

text \<open>
  \<open>callFails s t w0 m p w\<close>: in \<open>processData\<close> started in the world \<open>w0\<close>, a call of
  \<open>GetCount\<close>, of \<open>GetBatch\<close> or of \<open>InsertBatch\<close> returns an error, in the first
  iteration or in a later one; \<open>p\<close> and \<open>w\<close> are the processor and the world the call
  leaves, and \<open>m\<close> is its message, behind \<open>insert batch failed\<close> for an insertion.
\<close>

inductive callFails :: "SyncService \<Rightarrow> string \<Rightarrow> world \<Rightarrow> string \<Rightarrow> DataProcessor \<Rightarrow> world \<Rightarrow> bool"
  for s :: SyncService and tempTableName :: string and w0 :: world where
  count_fails:
    "\<not> HasPreloadedData (processor s) \<Longrightarrow>
     on (source s) (\<lambda>e. GetCount e (sourceSchema_s s)) w0 = (Inl (Error m), w1) \<Longrightarrow>
     callFails s tempTableName w0 m (processor s) w1"
| extract_fails:
    "streamHead s tempTableName w0 totalCount p w offset batchSize \<Longrightarrow>
     offset < totalCount \<Longrightarrow>
     on (source s) (\<lambda>e. GetBatch_db e (SourceTable (config s)) offset batchSize (sourceSchema_s s)) w
       = (Inl (Error m), w1) \<Longrightarrow>
     callFails s tempTableName w0 m p w1"
| insert_fails:
    "streamHead s tempTableName w0 totalCount p w offset batchSize \<Longrightarrow>
     offset < totalCount \<Longrightarrow>
     on (source s) (\<lambda>e. GetBatch_db e (SourceTable (config s)) offset batchSize (sourceSchema_s s)) w
       = (Inr batch, w1) \<Longrightarrow>
     GetBatch (Process p batch) batchSize = Inr (processedBatch, p2) \<Longrightarrow>
     processedBatch \<noteq> [] \<Longrightarrow>
     on (target s) (\<lambda>e. InsertBatch e tempTableName processedBatch (GetTargetColumns p2)) w1
       = (Inl (Error m), w2) \<Longrightarrow>
     callFails s tempTableName w0 (''insert batch failed: '' @ m) p2 w2"
| preload_insert_fails:
    "preloadHead s tempTableName w0 p w offset \<Longrightarrow>
     offset < len (sourceData (processor s)) \<Longrightarrow>
     GetPreloadedBatch p offset (BatchSize (config s)) = (Inr processedBatch, p1) \<Longrightarrow>
     processedBatch \<noteq> [] \<Longrightarrow>
     on (target s) (\<lambda>e. InsertBatch e tempTableName processedBatch (GetTargetColumns p1)) w
       = (Inl (Error m), w1) \<Longrightarrow>
     callFails s tempTableName w0 (''insert batch failed: '' @ m) p1 w1"


section \<open>What a cycle leaves alone\<close>

text \<open>
  \<open>quiet S d d'\<close>: from \<open>d\<close> to \<open>d'\<close> no table outside \<open>S\<close> has changed and no
  rename statement was received. \<open>inTx S d\<close>: the rows waiting for a commit all belong
  to tables in \<open>S\<close>. \<open>wquiet c t w w'\<close>: in the whole world only table \<open>t\<close> of
  connection \<open>c\<close> may have changed, and no connection received a rename.
\<close>

definition quiet :: "string set \<Rightarrow> db \<Rightarrow> db \<Rightarrow> bool" where
  "quiet S d d' \<longleftrightarrow>
     (\<forall>x. x \<notin> S \<longrightarrow> tables d' x = tables d x) \<and> issued isRename d' = issued isRename d"

definition inTx :: "string set \<Rightarrow> db \<Rightarrow> bool" where
  "inTx S d \<longleftrightarrow> list_all (\<lambda>e. fst e \<in> S) (pending d)"

definition inside :: "string set \<Rightarrow> db \<Rightarrow> db \<Rightarrow> bool" where
  "inside S d0 d \<longleftrightarrow> quiet S d0 d \<and> inTx S d"

definition wquiet :: "string \<Rightarrow> string \<Rightarrow> world \<Rightarrow> world \<Rightarrow> bool" where
  "wquiet c t w w' \<longleftrightarrow> (\<forall>c'. quiet (if c' = c then {t} else {}) (w c') (w' c'))"


section \<open>Batches of a cycle\<close>

text \<open>Sizes of the insert transactions in a sequence of statements.\<close>

fun txStep :: "stmt \<Rightarrow> nat \<times> nat list \<Rightarrow> nat \<times> nat list" where
  "txStep TxBegin (n, sizes) = (0, sizes)"
| "txStep (InsertRows t cols rows) (n, sizes) = (n + length rows, sizes)"
| "txStep TxCommit (n, sizes) = (0, if 0 < n then sizes @ [n] else sizes)"
| "txStep st (n, sizes) = (n, sizes)"

definition batchSizes :: "stmt list \<Rightarrow> nat list" where
  "batchSizes ss = snd (fold txStep ss (0, []))"

text \<open>The batch sizes of the loop over \<open>n\<close> rows: the batch size shrinks to the last batch.\<close>

function chunks :: "nat \<Rightarrow> nat \<Rightarrow> nat list" where
  "chunks b n = (if n = 0 \<or> b = 0 then [] else min b n # chunks (min b n) (n - min b n))"
  by pat_completeness auto
termination
  by (relation "measure (\<lambda>(b, n). n)") auto

declare chunks.simps [simp del]

text \<open>The statements of one successful \<open>InsertBatch\<close>, and the database after it.\<close>

definition insertTrace :: "engine \<Rightarrow> string \<Rightarrow> string set \<Rightarrow> Record list \<Rightarrow> stmt list" where
  "insertTrace e t cols batch =
     (case e of
        MariaDB \<Rightarrow> [TxBegin, InsertRows t cols batch, TxCommit]
      | Oracle \<Rightarrow> [TxBegin, PrepareInsert t cols] @ map (\<lambda>r. InsertRows t cols [r]) batch @ [TxCommit])"

text \<open>A connection that never fails.\<close>

definition nofault :: "db \<Rightarrow> bool" where
  "nofault d \<longleftrightarrow> (\<forall>i. \<not> faulty d i)"

definition inserted :: "engine \<Rightarrow> string \<Rightarrow> string set \<Rightarrow> Record list \<Rightarrow> db \<Rightarrow> db" where
  "inserted e t cols batch d =
     d\<lparr>trace := trace d @ insertTrace e t cols batch, pending := [],
       tables := (tables d)(t \<mapsto> the (tables d t) @ map (project cols) batch)\<rparr>"


section \<open>Process start-up (main)\<close>

text \<open>
  What \<^verbatim>\<open>main\<close> reads of the configuration: the names of the configured Oracle and
  MariaDB databases and, per sync entry, the names of its source and target connection
  and its tables. Whether a database can be reached is the environment's.
\<close>

record TableSyncConfig =
  tableSource :: string
  tableTarget :: string

record SyncEntry =
  SourceDB :: string
  TargetDB :: string
  Tables :: "TableSyncConfig list"

record Config =
  OracleDBs :: "string list"
  MariaDBs :: "string list"
  Sync :: "SyncEntry list"

record startup_env =
  connects :: "engine \<Rightarrow> string \<Rightarrow> bool"
  pings :: "engine \<Rightarrow> string \<Rightarrow> bool"

text \<open>
  A job task spawned for a table (\<^verbatim>\<open>go func\<close>), with the connectors of its sync entry.
  What a task does once spawned (it constructs its service and runs cycles, sharing the
  variable \<^verbatim>\<open>err\<close> of \<^verbatim>\<open>main\<close> with the other tasks) runs concurrently and is not part of
  the start-up.
\<close>

record Job =
  jobSource :: DatabaseConnector
  jobTarget :: DatabaseConnector
  jobTable :: TableSyncConfig

datatype startup = Fatal string | Started "Job list"

text \<open>
  Modelled from the spec: \<^verbatim>\<open>Fatalf\<close> of package \<^verbatim>\<open>logger\<close>, which is not among the
  sources. The spec describes the start-up as one that "terminates the entire process on
  any single configured database's connection failure": the call logs the message and
  ends the process, so nothing after it runs and every task already spawned ends with it.
\<close>

definition Fatalf :: "string \<Rightarrow> startup" where
  "Fatalf msg = Fatal msg"

definition engineName :: "engine \<Rightarrow> string" where
  "engineName e = (case e of MariaDB \<Rightarrow> ''MariaDB'' | Oracle \<Rightarrow> ''Oracle'')"

text \<open>The two loops that connect and ping every configured database of an engine.\<close>

fun connectAll :: "startup_env \<Rightarrow> engine \<Rightarrow> string list \<Rightarrow> (string \<rightharpoonup> DatabaseConnector) \<Rightarrow> string + (string \<rightharpoonup> DatabaseConnector)" where
  "connectAll env e [] connections = Inr connections"
| "connectAll env e (name # rest) connections =
     (if \<not> connects env e name then Inl (''Failed to connect to '' @ engineName e @ '' '' @ name)
      else if \<not> pings env e name then Inl (''Failed to ping '' @ engineName e @ '' '' @ name)
      else connectAll env e rest (connections(name \<mapsto> \<lparr>engine_of = e, conn = name\<rparr>)))"

text \<open>The loop over the sync entries: one task per table of each entry.\<close>

fun spawnAll :: "(string \<rightharpoonup> DatabaseConnector) \<Rightarrow> SyncEntry list \<Rightarrow> Job list \<Rightarrow> string + Job list" where
  "spawnAll connections [] jobs = Inr jobs"
| "spawnAll connections (syncCfg # rest) jobs =
     (case connections (SourceDB syncCfg) of
        None \<Rightarrow> Inl (''Source DB connection '' @ SourceDB syncCfg @ '' not found'')
      | Some sourceConn \<Rightarrow>
          (case connections (TargetDB syncCfg) of
             None \<Rightarrow> Inl (''Target DB connection '' @ TargetDB syncCfg @ '' not found'')
           | Some targetConn \<Rightarrow>
               spawnAll connections rest
                 (jobs @ map (\<lambda>tableCfg. \<lparr>jobSource = sourceConn, jobTarget = targetConn,
                                           jobTable = tableCfg\<rparr>)
                           (Tables syncCfg))))"

definition main :: "Config \<Rightarrow> startup_env \<Rightarrow> startup" where
  "main cfg env =
     (case connectAll env Oracle (OracleDBs cfg) Map.empty of
        Inl msg \<Rightarrow> Fatalf msg
      | Inr c1 \<Rightarrow>
          (case connectAll env MariaDB (MariaDBs cfg) c1 of
             Inl msg \<Rightarrow> Fatalf msg
           | Inr connections \<Rightarrow>
               (case spawnAll connections (Sync cfg) [] of
                  Inl msg \<Rightarrow> Fatalf msg
                | Inr jobs \<Rightarrow> Started jobs)))"


section \<open>Example inputs\<close>

definition ex_col :: "string \<Rightarrow> ColumnInfo" where
  "ex_col n = \<lparr>Name = n, DataType = ''VARCHAR(64)'', IsNullable = True, AutoIncrement = False\<rparr>"

definition ex_schema :: "string list \<Rightarrow> TableSchema" where
  "ex_schema ns = \<lparr>Columns = map ex_col ns, PrimaryKey = [], Indexes = []\<rparr>"

definition ex_mapper :: DataProcessor where
  "ex_mapper = NewDataProcessor [WithSchemas (Some (ex_schema [''A'', ''B''])) (Some (ex_schema [''a'']))]"

definition ex_preloaded :: DataProcessor where
  "ex_preloaded =
     SetSourceData [[''VENDOR_NAME'' \<mapsto> Str ''Acme'']]
       (NewDataProcessor [WithSchemas None (Some (ex_schema [''vendorName''])),
                          WithTransform (Some TransformForModelPhones)])"

text \<open>A database that never fails a call, holding the given tables.\<close>

definition ex_db :: "(string \<times> Record list) list \<Rightarrow> db" where
  "ex_db ts = \<lparr>tables = map_of ts, pending = [], trace = [], faulty = (\<lambda>i. False),
              now = ''20240101120000'', procs = (\<lambda>name args T. None)\<rparr>"

definition ex_old :: Record where "ex_old = [''id'' \<mapsto> Num 1]"

definition ex_cfg :: Config where
  "ex_cfg = \<lparr>OracleDBs = [], MariaDBs = [''a'', ''b''],
             Sync = [\<lparr>SourceDB = ''a'', TargetDB = ''a'',
                      Tables = [\<lparr>tableSource = ''s'', tableTarget = ''t''\<rparr>]\<rparr>]\<rparr>"

definition ex_env :: startup_env where
  "ex_env = \<lparr>connects = (\<lambda>e name. name \<noteq> ''b''), pings = (\<lambda>e name. True)\<rparr>"

definition ex_job :: SyncService where
  "ex_job =
     \<lparr>source = \<lparr>engine_of = Oracle, conn = ''o''\<rparr>,
      target = \<lparr>engine_of = MariaDB, conn = ''m''\<rparr>,
      processor = SetSourceData [[''ID'' \<mapsto> Num 7]]
                    (NewDataProcessor [WithSchemas None (Some (ex_schema [''ID'']))]),
      config = \<lparr>SourceTable = [], TargetTable = ''t'', BatchSize = 10,
                 TempTableSuffix = ''_temp'', PostProcedure = []\<rparr>,
      sourceSchema_s = None,
      targetSchema_s = Some (ex_schema [''ID''])\<rparr>"

definition ex_world :: "(string \<times> Record list) list \<Rightarrow> (nat \<Rightarrow> bool) \<Rightarrow> world" where
  "ex_world ts faults = (\<lambda>c. (ex_db ts)\<lparr>faulty := faults\<rparr>)"

text \<open>
  A streaming job from the MariaDB connection \<open>src\<close> to the MariaDB connection \<open>m\<close>:
  \<open>pk\<close> is the primary-key field of the source schema, \<open>bs\<close> the batch size. In its
  world the source table \<open>SRC\<close> holds \<open>rows\<close>, the source connection fails by \<open>faults\<close>
  and the target database holds the tables \<open>ts\<close>.
\<close>

definition ex_stream :: "string \<Rightarrow> int \<Rightarrow> SyncService" where
  "ex_stream pk bs =
     \<lparr>source = \<lparr>engine_of = MariaDB, conn = ''src''\<rparr>,
      target = \<lparr>engine_of = MariaDB, conn = ''m''\<rparr>,
      processor = NewDataProcessor
                    [WithSchemas (Some \<lparr>Columns = [ex_col ''ID''], PrimaryKey = pk, Indexes = []\<rparr>)
                                 (Some (ex_schema [''id'']))],
      config = \<lparr>SourceTable = ''SRC'', TargetTable = ''t'', BatchSize = bs,
                 TempTableSuffix = ''_temp'', PostProcedure = []\<rparr>,
      sourceSchema_s = Some \<lparr>Columns = [ex_col ''ID''], PrimaryKey = pk, Indexes = []\<rparr>,
      targetSchema_s = Some (ex_schema [''id''])\<rparr>"

definition ex_stream_world :: "Record list \<Rightarrow> (nat \<Rightarrow> bool) \<Rightarrow> (string \<times> Record list) list \<Rightarrow> world" where
  "ex_stream_world rows faults ts =
     (\<lambda>c. if c = ''src'' then (ex_db [(''SRC'', rows)])\<lparr>faulty := faults\<rparr> else ex_db ts)"


section \<open>Column mapping\<close>

lemma matchTarget_find:
  "matchTarget s tgts m =
     (case find (\<lambda>t. GetColumnName t True = GetColumnName s True) tgts of
        None \<Rightarrow> m | Some t \<Rightarrow> m(Name s \<mapsto> Name t))"
  by (induction tgts) auto

lemma GetColumnName_True: "GetColumnName c True = ToLower (RemoveUnderscores (Name c))"
  by (simp add: GetColumnName_def)

lemma mapSources_lookup:
  "mapSources srcs tgts m n =
     (if n \<in> Name ` set srcs
      then (case find (\<lambda>t. GetColumnName t True = ToLower (RemoveUnderscores n)) tgts of
              None \<Rightarrow> m n | Some t \<Rightarrow> Some (Name t))
      else m n)"
proof (induction srcs arbitrary: m n)
  case Nil
  show ?case by simp
next
  case (Cons s rest)
  show ?case
    by (cases "n = Name s")
       (auto simp: Cons.IH matchTarget_find GetColumnName_True split: option.splits)
qed

text \<open>
  Claim C8. Column-name normalisation lower-cases a name and removes its underscores;
  the mapper pairs a source column with the first target column whose normalised name
  equals the source column's. In particular \<^verbatim>\<open>VENDOR_NAME\<close> and \<^verbatim>\<open>vendorName\<close>
  normalise to the same key \<^verbatim>\<open>vendorname\<close>, and a processor built with these columns
  maps \<^verbatim>\<open>VENDOR_NAME\<close> to \<^verbatim>\<open>vendorName\<close>, the first of two matching target columns.
\<close>

theorem normalized_names_pair:
  "GetColumnName c True = map ToLower_char (filter (\<lambda>x. x \<noteq> CHR ''_'') (Name c))
   \<and> columnMapping (NewDataProcessor [WithSchemas (Some src) (Some tgt), WithTransform f]) n =
       (if n \<in> Name ` set (Columns src)
        then map_option Name
               (find (\<lambda>t. GetColumnName t True = ToLower (RemoveUnderscores n)) (Columns tgt))
        else None)
   \<and> GetColumnName \<lparr>Name = ''VENDOR_NAME'', DataType = d1, IsNullable = b1, AutoIncrement = a1\<rparr> True = ''vendorname''
   \<and> GetColumnName \<lparr>Name = ''vendorName'', DataType = d2, IsNullable = b2, AutoIncrement = a2\<rparr> True = ''vendorname''
   \<and> columnMapping (NewDataProcessor
         [WithSchemas
            (Some \<lparr>Columns = [\<lparr>Name = ''TAC'', DataType = d0, IsNullable = b0, AutoIncrement = a0\<rparr>,
                              \<lparr>Name = ''VENDOR_NAME'', DataType = d1, IsNullable = b1, AutoIncrement = a1\<rparr>],
                   PrimaryKey = pk1, Indexes = ix1\<rparr>)
            (Some \<lparr>Columns = [\<lparr>Name = ''vendorName'', DataType = d2, IsNullable = b2, AutoIncrement = a2\<rparr>,
                              \<lparr>Name = ''vendor_name'', DataType = d3, IsNullable = b3, AutoIncrement = a3\<rparr>],
                   PrimaryKey = pk2, Indexes = ix2\<rparr>)])
       ''VENDOR_NAME'' = Some ''vendorName''"
proof -
  have a: "GetColumnName c True = map ToLower_char (filter (\<lambda>x. x \<noteq> CHR ''_'') (Name c))"
    by (simp add: GetColumnName_def ToLower_def RemoveUnderscores_def)
  have b: "columnMapping (NewDataProcessor [WithSchemas (Some src) (Some tgt), WithTransform f]) n =
       (if n \<in> Name ` set (Columns src)
        then map_option Name
               (find (\<lambda>t. GetColumnName t True = ToLower (RemoveUnderscores n)) (Columns tgt))
        else None)"
    by (simp add: NewDataProcessor_def WithSchemas_def WithTransform_def createColumnMapping_def
        mapSources_lookup split: option.splits)
  have c: "GetColumnName \<lparr>Name = ''VENDOR_NAME'', DataType = d1, IsNullable = b1, AutoIncrement = a1\<rparr> True = ''vendorname''"
    by (simp add: GetColumnName_def ToLower_def RemoveUnderscores_def ToLower_char_def)
  have d: "GetColumnName \<lparr>Name = ''vendorName'', DataType = d2, IsNullable = b2, AutoIncrement = a2\<rparr> True = ''vendorname''"
    by (simp add: GetColumnName_def ToLower_def RemoveUnderscores_def ToLower_char_def)
  have e: "columnMapping (NewDataProcessor
         [WithSchemas
            (Some \<lparr>Columns = [\<lparr>Name = ''TAC'', DataType = d0, IsNullable = b0, AutoIncrement = a0\<rparr>,
                              \<lparr>Name = ''VENDOR_NAME'', DataType = d1, IsNullable = b1, AutoIncrement = a1\<rparr>],
                   PrimaryKey = pk1, Indexes = ix1\<rparr>)
            (Some \<lparr>Columns = [\<lparr>Name = ''vendorName'', DataType = d2, IsNullable = b2, AutoIncrement = a2\<rparr>,
                              \<lparr>Name = ''vendor_name'', DataType = d3, IsNullable = b3, AutoIncrement = a3\<rparr>],
                   PrimaryKey = pk2, Indexes = ix2\<rparr>)])
       ''VENDOR_NAME'' = Some ''vendorName''"
    by (simp add: NewDataProcessor_def WithSchemas_def createColumnMapping_def
        GetColumnName_def ToLower_def RemoveUnderscores_def ToLower_char_def)
  from a b c d e show ?thesis by blast
qed


section \<open>Draining the buffer\<close>

text \<open>
  Claim C7. For every buffer and every count \<open>n\<close> (a size \<open>n \<ge> 0\<close>), \<open>GetBatch n\<close>
  returns the first \<open>min n (length of the buffer)\<close> records in arrival order and leaves
  the remaining records in the buffer, in their order: the returned batch followed by the
  new buffer is the old buffer.
\<close>

theorem GetBatch_drains_prefix:
  assumes "0 \<le> n"
  shows "GetBatch p n =
           Inr (take (nat (min n (len (buffer p)))) (buffer p),
                p\<lparr>buffer := drop (nat (min n (len (buffer p)))) (buffer p)\<rparr>)
         \<and> length (take (nat (min n (len (buffer p)))) (buffer p)) = nat (min n (len (buffer p)))
         \<and> take (nat (min n (len (buffer p)))) (buffer p) @ drop (nat (min n (len (buffer p)))) (buffer p) = buffer p"
  using assms by (auto simp: GetBatch_def len_def Let_def min_def)

theorem GetBatch_drains_prefix_witness:
  "(0::int) \<le> 1
   \<and> GetBatch (NewDataProcessor []\<lparr>buffer := [[''a'' \<mapsto> Num 1], [''a'' \<mapsto> Num 2]]\<rparr>) 1
       = Inr ([[''a'' \<mapsto> Num 1]], NewDataProcessor []\<lparr>buffer := [[''a'' \<mapsto> Num 2]]\<rparr>)"
proof -
  have h: "(0::int) \<le> 1" by simp
  show ?thesis
    using h GetBatch_drains_prefix [OF h, of "NewDataProcessor []\<lparr>buffer := [[''a'' \<mapsto> Num 1], [''a'' \<mapsto> Num 2]]\<rparr>"]
    by (simp add: len_def)
qed

text \<open>
  A negative size is not a count: the slice expression \<^verbatim>\<open>p.buffer[:size]\<close> panics. The
  loop of \<open>processData\<close> passes the batch size that the connector's \<open>GetBatch\<close> has
  accepted as positive.
\<close>

lemma GetBatch_negative_panics:
  "GetBatch (NewDataProcessor []\<lparr>buffer := [Map.empty(''a'' \<mapsto> Num 1), Map.empty(''a'' \<mapsto> Num 2)]\<rparr>) (- 1) = Inl Panic"
  by (simp add: GetBatch_def len_def NewDataProcessor_def)

section \<open>Mapping a batch\<close>

lemma Process_loop_append:
  "Process_loop p batch buf = buf @ List.map_filter (\<lambda>rec. fst (processRecord p rec)) batch"
  by (induction batch arbitrary: buf) (auto simp: List.map_filter_simps split: option.splits)

lemma mapColumns_dom:
  "dom (mapColumns p rec cols acc) = dom acc \<union> targetName p ` {c \<in> set cols. Name c \<in> dom rec}"
  by (induction cols arbitrary: acc) (auto simp: GetColumnName_def split: option.splits)

lemma find_app:
  "find P (xs @ ys) = (case find P xs of None \<Rightarrow> find P ys | Some x \<Rightarrow> Some x)"
  by (induction xs) auto

lemma mapColumns_lookup:
  "mapColumns p rec cols acc k =
     (case find (\<lambda>c. targetName p c = k \<and> Name c \<in> dom rec) (rev cols) of
        Some c \<Rightarrow> rec (Name c)
      | None \<Rightarrow> acc k)"
  by (induction cols arbitrary: acc) (auto simp: GetColumnName_def find_app split: option.splits)

text \<open>
  Claim C1, as stated, fails: a source-schema column that has no mapping is not dropped
  but kept under its own name. Source columns \<open>A\<close>, \<open>B\<close> and target column \<open>a\<close>
  give the mapping \<open>A \<mapsto> a\<close>; the record \<open>{A: 1, B: 2}\<close> is buffered as
  \<open>{a: 1, B: 2}\<close>, whose key set is not the image \<open>{a}\<close> of the mapped keys.
\<close>

theorem Process_keeps_unmapped_column:
  "columnMapping ex_mapper ''A'' = Some ''a''
   \<and> columnMapping ex_mapper ''B'' = None
   \<and> dom (columnMapping ex_mapper) = {''A''}
   \<and> buffer (Process ex_mapper [[''A'' \<mapsto> Num 1, ''B'' \<mapsto> Num 2]]) = [[''a'' \<mapsto> Num 1, ''B'' \<mapsto> Num 2]]
   \<and> dom (hd (buffer (Process ex_mapper [[''A'' \<mapsto> Num 1, ''B'' \<mapsto> Num 2]]))) = {''a'', ''B''}"
  by (simp add: ex_mapper_def ex_schema_def ex_col_def NewDataProcessor_def WithSchemas_def
      createColumnMapping_def GetColumnName_def ToLower_def RemoveUnderscores_def ToLower_char_def
      Process_def processRecord_def targetName_def identityTransform_def insert_commute)

text \<open>
  Claim C1, amended. When a source schema is set, \<open>Process\<close> appends to the buffer, for
  each record of the batch in order, the transform's result (unless it is \<^verbatim>\<open>nil\<close>) on
  a record whose key set is exactly the image of the schema's columns present in the
  source record under the renaming \<open>targetName\<close>: the mapped target name when a target
  schema is set and the column has a mapping, the column's own name otherwise. Keys of
  the source record that are not schema columns are dropped; every value is the source
  value of the (last, in schema order) column renamed to its key.
\<close>

theorem Process_renames_schema_columns:
  assumes "sourceSchema p = Some ss"
  shows "buffer (Process p B) =
           buffer p @ List.map_filter
             (\<lambda>rec. case transform p of
                      None \<Rightarrow> Some (mapColumns p rec (Columns ss) Map.empty)
                    | Some f \<Rightarrow> fst (f (mapColumns p rec (Columns ss) Map.empty))) B
         \<and> dom (mapColumns p rec (Columns ss) Map.empty) =
             targetName p ` {c \<in> set (Columns ss). Name c \<in> dom rec}
         \<and> mapColumns p rec (Columns ss) Map.empty k =
             (case find (\<lambda>c. targetName p c = k \<and> Name c \<in> dom rec) (rev (Columns ss)) of
                Some c \<Rightarrow> rec (Name c)
              | None \<Rightarrow> None)
         \<and> targetName p c =
             (if targetSchema p = None then Name c
              else case columnMapping p (Name c) of Some mapped \<Rightarrow> mapped | None \<Rightarrow> Name c)"
proof -
  have "(\<lambda>rec. fst (processRecord p rec)) =
        (\<lambda>rec. case transform p of
                      None \<Rightarrow> Some (mapColumns p rec (Columns ss) Map.empty)
                    | Some f \<Rightarrow> fst (f (mapColumns p rec (Columns ss) Map.empty)))"
    using assms by (auto simp: processRecord_def fun_eq_iff split: option.splits)
  then have a: "buffer (Process p B) =
           buffer p @ List.map_filter
             (\<lambda>rec. case transform p of
                      None \<Rightarrow> Some (mapColumns p rec (Columns ss) Map.empty)
                    | Some f \<Rightarrow> fst (f (mapColumns p rec (Columns ss) Map.empty))) B"
    by (simp add: Process_def Process_loop_append)
  have b: "dom (mapColumns p rec (Columns ss) Map.empty) =
             targetName p ` {c \<in> set (Columns ss). Name c \<in> dom rec}"
    by (simp add: mapColumns_dom)
  have c: "mapColumns p rec (Columns ss) Map.empty k =
             (case find (\<lambda>c. targetName p c = k \<and> Name c \<in> dom rec) (rev (Columns ss)) of
                Some c \<Rightarrow> rec (Name c)
              | None \<Rightarrow> None)"
    by (simp add: mapColumns_lookup)
  have d: "targetName p c =
             (if targetSchema p = None then Name c
              else case columnMapping p (Name c) of Some mapped \<Rightarrow> mapped | None \<Rightarrow> Name c)"
    by (simp add: targetName_def split: option.splits)
  from a b c d show ?thesis by blast
qed

theorem Process_renames_schema_columns_witness:
  "sourceSchema ex_mapper = Some (ex_schema [''A'', ''B''])
   \<and> mapColumns ex_mapper [''A'' \<mapsto> Num 1, ''Z'' \<mapsto> Num 3] (Columns (ex_schema [''A'', ''B''])) Map.empty ''a'' = Some (Num 1)
   \<and> mapColumns ex_mapper [''A'' \<mapsto> Num 1, ''Z'' \<mapsto> Num 3] (Columns (ex_schema [''A'', ''B''])) Map.empty ''Z'' = None"
proof -
  have h: "sourceSchema ex_mapper = Some (ex_schema [''A'', ''B''])"
    by (simp add: ex_mapper_def NewDataProcessor_def WithSchemas_def createColumnMapping_def)
  have t: "targetName ex_mapper (ex_col ''A'') = ''a''" "targetName ex_mapper (ex_col ''B'') = ''B''"
    by (simp_all add: ex_mapper_def ex_schema_def ex_col_def NewDataProcessor_def WithSchemas_def
      createColumnMapping_def GetColumnName_def ToLower_def RemoveUnderscores_def ToLower_char_def
      targetName_def)
  show ?thesis
    using h t
      Process_renames_schema_columns [OF h, of "[]" "[''A'' \<mapsto> Num 1, ''Z'' \<mapsto> Num 3]" "''a''" "ex_col ''A''"]
      Process_renames_schema_columns [OF h, of "[]" "[''A'' \<mapsto> Num 1, ''Z'' \<mapsto> Num 3]" "''Z''" "ex_col ''A''"]
    by (simp add: ex_schema_def) (simp add: ex_col_def)
qed

section \<open>Reading the preloaded set\<close>

lemma mapColumns_sourceData:
  "mapColumns (p\<lparr>sourceData := sd\<rparr>) rec cols acc = mapColumns p rec cols acc"
  by (induction cols arbitrary: acc) (auto simp: targetName_def split: option.splits)

lemma processRecord_sourceData:
  "processRecord (p\<lparr>sourceData := sd\<rparr>) = processRecord p"
  by (auto simp: processRecord_def fun_eq_iff mapColumns_sourceData split: option.splits)

lemma processRecord_stable:
  assumes "sourceSchema p \<noteq> None \<or> (\<forall>f rec. transform p = Some f \<longrightarrow> f (snd (f rec)) = f rec)"
  shows "processRecord p (snd (processRecord p r)) = processRecord p r"
  using assms by (auto simp: processRecord_def Let_def split: option.splits)

lemma processRecord_schema_keeps:
  "sourceSchema p \<noteq> None \<Longrightarrow> snd (processRecord p r) = r"
  by (auto simp: processRecord_def Let_def split: option.splits)

lemma slice_replace:
  assumes "a \<le> b" "b \<le> length xs" "length ys = b - a"
  shows "take a (take a xs @ ys @ drop b xs) = take a xs"
    and "take (b - a) (drop a (take a xs @ ys @ drop b xs)) = ys"
    and "drop b (take a xs @ ys @ drop b xs) = drop b xs"
    and "length (take a xs @ ys @ drop b xs) = length xs"
  using assms by (auto simp: min_def)

lemma slice_id:
  assumes "a \<le> b" "b \<le> length xs"
  shows "take a xs @ take (b - a) (drop a xs) @ drop b xs = xs"
proof -
  have "take (b - a) (drop a xs) @ drop b xs = drop a xs"
    using assms by (metis add_diff_inverse_nat append_take_drop_id drop_drop not_less add.commute)
  then show ?thesis by simp
qed

lemma map_filter_map: "List.map_filter f (map g xs) = List.map_filter (\<lambda>x. f (g x)) xs"
  by (induction xs) (auto simp: List.map_filter_simps split: option.splits)

lemma GetPreloadedBatch_eval:
  assumes "dataLoaded q" "0 \<le> offset" "offset < len (sourceData q)"
    and "e1 = (if wrap64 (offset + n) > len (sourceData q) then len (sourceData q) else wrap64 (offset + n))"
    and "offset \<le> e1"
  shows "GetPreloadedBatch q offset n =
    (Inr (List.map_filter (\<lambda>rec. fst (processRecord q rec))
            (take (nat e1 - nat offset) (drop (nat offset) (sourceData q)))),
     q\<lparr>sourceData := take (nat offset) (sourceData q)
          @ map (\<lambda>rec. snd (processRecord q rec)) (take (nat e1 - nat offset) (drop (nat offset) (sourceData q)))
          @ drop (nat e1) (sourceData q)\<rparr>)"
proof -
  have "nat (e1 - offset) = nat e1 - nat offset"
    using assms(2,5) by (simp add: nat_diff_distrib)
  then show ?thesis
    using assms(1,2,3,5) unfolding GetPreloadedBatch_def Let_def assms(4) [symmetric]
    by simp
qed

lemma renameKey_absent: "old \<noteq> new \<Longrightarrow> renameKey old new r old = None"
  by (simp add: renameKey_def split: option.splits)

lemma renameKey_noop: "r old = None \<Longrightarrow> renameKey old new r = r"
  by (simp add: renameKey_def)

lemma renameKey_other: "k \<noteq> old \<Longrightarrow> k \<noteq> new \<Longrightarrow> renameKey old new r k = r k"
  by (simp add: renameKey_def split: option.splits)

lemma TransformForModelPhones_stable:
  "TransformForModelPhones (snd (TransformForModelPhones r)) = TransformForModelPhones r"
proof -
  let ?r3 = "renameKey ''TAC'' ''tac'' (renameKey ''MODEL_NAME'' ''modelName'' (renameKey ''VENDOR_NAME'' ''vendorName'' r))"
  have a: "?r3 ''VENDOR_NAME'' = None"
    by (simp add: renameKey_other renameKey_absent)
  have b: "?r3 ''MODEL_NAME'' = None"
    by (simp add: renameKey_other renameKey_absent)
  have c: "?r3 ''TAC'' = None"
    by (simp add: renameKey_absent)
  show ?thesis
    by (simp add: TransformForModelPhones_def Let_def renameKey_noop a b c)
qed

text \<open>
  Claim C5, as stated, fails: without a source schema (the preloaded mode of a query
  source) the transform receives the preloaded record itself, and the registered
  transforms rename keys in place. After one read the preloaded record
  \<open>{VENDOR_NAME: Acme}\<close> has become \<open>{vendorName: Acme}\<close>.
\<close>

theorem GetPreloadedBatch_mutates_preloaded:
  "sourceData ex_preloaded = [[''VENDOR_NAME'' \<mapsto> Str ''Acme'']]
   \<and> fst (GetPreloadedBatch ex_preloaded 0 1) = Inr [[''vendorName'' \<mapsto> Str ''Acme'']]
   \<and> sourceData (snd (GetPreloadedBatch ex_preloaded 0 1)) = [[''vendorName'' \<mapsto> Str ''Acme'']]
   \<and> sourceData (snd (GetPreloadedBatch ex_preloaded 0 1)) \<noteq> sourceData ex_preloaded"
proof -
  have neq: "[''vendorName'' \<mapsto> Str ''Acme''] \<noteq> [''VENDOR_NAME'' \<mapsto> Str ''Acme'']"
  proof
    assume "[''vendorName'' \<mapsto> Str ''Acme''] = [''VENDOR_NAME'' \<mapsto> Str ''Acme'']"
    then have "[''vendorName'' \<mapsto> Str ''Acme''] ''vendorName'' = [''VENDOR_NAME'' \<mapsto> Str ''Acme''] ''vendorName''"
      by simp
    then show False by simp
  qed
  have m: "(Map.empty(''VENDOR_NAME'' \<mapsto> Str ''Acme'', ''vendorName'' \<mapsto> Str ''Acme''))(''VENDOR_NAME'' := None)
      = [''vendorName'' \<mapsto> Str ''Acme'']"
    by (auto simp: fun_eq_iff)
  show ?thesis
    using neq
    by (simp add: ex_preloaded_def SetSourceData_def NewDataProcessor_def WithSchemas_def
      WithTransform_def GetPreloadedBatch_def len_def wrap64_def processRecord_def
      TransformForModelPhones_def renameKey_def List.map_filter_simps Let_def m)
qed

text \<open>
  Claim C5, amended. When a source schema is set, or the transform gives the same answer
  on what it leaves of its argument as on the argument (as the identity and
  \<open>TransformForModelPhones\<close> do), a second \<open>GetPreloadedBatch\<close> with the same offset
  and size returns what the first returned and leaves the processor as the first left
  it. The call changes nothing but the preloaded records, whose number it keeps; with a
  source schema it changes nothing at all. For a loaded set and \<open>0 \<le> offset\<close>,
  \<open>0 \<le> n\<close>, \<open>offset + n < 2^63\<close> the result is the processed records of the slice
  of \<open>n\<close> records from \<open>offset\<close>.
\<close>

theorem GetPreloadedBatch_reread:
  assumes st: "sourceSchema p \<noteq> None \<or> (\<forall>f rec. transform p = Some f \<longrightarrow> f (snd (f rec)) = f rec)"
  shows "GetPreloadedBatch (snd (GetPreloadedBatch p offset n)) offset n = GetPreloadedBatch p offset n
         \<and> length (sourceData (snd (GetPreloadedBatch p offset n))) = length (sourceData p)
         \<and> snd (GetPreloadedBatch p offset n) = p\<lparr>sourceData := sourceData (snd (GetPreloadedBatch p offset n))\<rparr>
         \<and> (sourceSchema p \<noteq> None \<longrightarrow> snd (GetPreloadedBatch p offset n) = p)
         \<and> (dataLoaded p \<and> 0 \<le> offset \<and> 0 \<le> n \<and> offset + n < 2 ^ 63 \<longrightarrow>
              fst (GetPreloadedBatch p offset n) =
                Inr (List.map_filter (\<lambda>rec. fst (processRecord p rec))
                       (take (nat n) (drop (nat offset) (sourceData p)))))"
proof -
  define sd where "sd = sourceData p"
  define e1 where "e1 = (if wrap64 (offset + n) > len sd then len sd else wrap64 (offset + n))"
  show ?thesis
  proof (cases "\<not> dataLoaded p \<or> offset \<ge> len sd")
    case True
    then have g: "GetPreloadedBatch p offset n = (Inr [], p)"
      by (simp add: GetPreloadedBatch_def sd_def)
    have "offset \<ge> len sd \<Longrightarrow> take (nat n) (drop (nat offset) (sourceData p)) = []"
      by (simp add: len_def sd_def)
    with True show ?thesis by (auto simp: g List.map_filter_simps)
  next
    case False
    note live = this
    show ?thesis
    proof (cases "offset < 0 \<or> e1 < offset")
      case True
      with live have g: "GetPreloadedBatch p offset n = (Inl Panic, p)"
        unfolding GetPreloadedBatch_def Let_def sd_def [symmetric] e1_def [symmetric] by simp
      have "\<not> (0 \<le> offset \<and> 0 \<le> n \<and> offset + n < 2 ^ 63)"
      proof
        assume a: "0 \<le> offset \<and> 0 \<le> n \<and> offset + n < 2 ^ 63"
        then have "wrap64 (offset + n) = offset + n" by (simp add: wrap64_def)
        with a live have "offset \<le> e1" by (auto simp: e1_def)
        with a True show False by simp
      qed
      then show ?thesis by (auto simp: g)
    next
      case False
      define sl where "sl = take (nat e1 - nat offset) (drop (nat offset) sd)"
      define sd' where "sd' = take (nat offset) sd @ map (\<lambda>rec. snd (processRecord p rec)) sl @ drop (nat e1) sd"
      have pre0: "dataLoaded p" "0 \<le> offset" "offset < len (sourceData p)"
          "e1 = (if wrap64 (offset + n) > len (sourceData p) then len (sourceData p) else wrap64 (offset + n))"
          "offset \<le> e1"
          using live False by (simp_all add: e1_def sd_def)
      have g: "GetPreloadedBatch p offset n =
          (Inr (List.map_filter (\<lambda>rec. fst (processRecord p rec)) sl), p\<lparr>sourceData := sd'\<rparr>)"
        unfolding sl_def sd'_def sd_def
        using GetPreloadedBatch_eval [OF pre0] .
      from False live have rng: "nat offset \<le> nat e1" "nat e1 \<le> length sd"
        by (auto simp: e1_def len_def split: if_splits)
      have lsl: "length (map (\<lambda>rec. snd (processRecord p rec)) sl) = nat e1 - nat offset"
        using rng by (simp add: sl_def)
      have len': "length sd' = length sd"
        unfolding sd'_def using slice_replace(4) [OF rng lsl] .
      have parts: "take (nat offset) sd' = take (nat offset) sd"
        "take (nat e1 - nat offset) (drop (nat offset) sd') = map (\<lambda>rec. snd (processRecord p rec)) sl"
        "drop (nat e1) sd' = drop (nat e1) sd"
        unfolding sd'_def using slice_replace(1-3) [OF rng lsl] by blast+
      have stab: "\<And>r. processRecord p (snd (processRecord p r)) = processRecord p r"
        using processRecord_stable [OF st] .
      have again: "GetPreloadedBatch (p\<lparr>sourceData := sd'\<rparr>) offset n =
          (Inr (List.map_filter (\<lambda>rec. fst (processRecord p rec)) sl), p\<lparr>sourceData := sd'\<rparr>)"
      proof -
        have l: "len sd' = len sd" using len' by (simp add: len_def)
        let ?q = "p\<lparr>sourceData := sd'\<rparr>"
        have pre: "dataLoaded ?q" "0 \<le> offset" "offset < len (sourceData ?q)"
          "e1 = (if wrap64 (offset + n) > len (sourceData ?q) then len (sourceData ?q) else wrap64 (offset + n))"
          "offset \<le> e1"
          using live False by (simp_all add: l e1_def)
        have "GetPreloadedBatch ?q offset n =
          (Inr (List.map_filter (\<lambda>rec. fst (processRecord p rec))
                 (map (\<lambda>rec. snd (processRecord p rec)) sl)),
           p\<lparr>sourceData := take (nat offset) sd @ map (\<lambda>rec. snd (processRecord p rec))
                 (map (\<lambda>rec. snd (processRecord p rec)) sl) @ drop (nat e1) sd\<rparr>)"
          using GetPreloadedBatch_eval [OF pre]
          by (simp add: parts processRecord_sourceData)
        then show ?thesis
          by (simp add: map_filter_map stab sd'_def)
      qed
      have keep: "sourceSchema p \<noteq> None \<Longrightarrow> sd' = sd"
      proof -
        assume "sourceSchema p \<noteq> None"
        then have "map (\<lambda>rec. snd (processRecord p rec)) sl = sl"
          by (simp add: processRecord_schema_keeps)
        then show "sd' = sd"
          unfolding sd'_def sl_def using slice_id [OF rng] by simp
      qed
      have res: "0 \<le> offset \<and> 0 \<le> n \<and> offset + n < 2 ^ 63 \<Longrightarrow> sl = take (nat n) (drop (nat offset) sd)"
      proof -
        assume a: "0 \<le> offset \<and> 0 \<le> n \<and> offset + n < 2 ^ 63"
        then have "wrap64 (offset + n) = offset + n" by (simp add: wrap64_def)
        then show ?thesis using a by (auto simp: sl_def e1_def len_def nat_diff_distrib nat_add_distrib)
      qed
      show ?thesis
        using again len' keep res by (auto simp: g sd_def)
    qed
  qed
qed


theorem GetPreloadedBatch_reread_witness:
  "transform ex_preloaded = Some TransformForModelPhones
   \<and> sourceSchema ex_preloaded = None
   \<and> GetPreloadedBatch (snd (GetPreloadedBatch ex_preloaded 0 1)) 0 1 = GetPreloadedBatch ex_preloaded 0 1
   \<and> fst (GetPreloadedBatch ex_preloaded 0 1) = Inr [[''vendorName'' \<mapsto> Str ''Acme'']]"
proof -
  have h: "sourceSchema ex_preloaded \<noteq> None \<or> (\<forall>f rec. transform ex_preloaded = Some f \<longrightarrow> f (snd (f rec)) = f rec)"
    by (simp add: ex_preloaded_def SetSourceData_def NewDataProcessor_def WithSchemas_def
      WithTransform_def TransformForModelPhones_stable)
  have m: "(Map.empty(''VENDOR_NAME'' \<mapsto> Str ''Acme'', ''vendorName'' \<mapsto> Str ''Acme''))(''VENDOR_NAME'' := None)
      = [''vendorName'' \<mapsto> Str ''Acme'']"
    by (auto simp: fun_eq_iff)
  have d: "dataLoaded ex_preloaded" "sourceData ex_preloaded = [[''VENDOR_NAME'' \<mapsto> Str ''Acme'']]"
    by (simp_all add: ex_preloaded_def SetSourceData_def)
  have pr: "fst (processRecord ex_preloaded [''VENDOR_NAME'' \<mapsto> Str ''Acme'']) = Some [''vendorName'' \<mapsto> Str ''Acme'']"
    by (simp add: ex_preloaded_def SetSourceData_def NewDataProcessor_def WithSchemas_def
      WithTransform_def processRecord_def TransformForModelPhones_def renameKey_def Let_def m)
  have t: "transform ex_preloaded = Some TransformForModelPhones" "sourceSchema ex_preloaded = None"
    by (simp_all add: ex_preloaded_def SetSourceData_def NewDataProcessor_def WithSchemas_def
      WithTransform_def)
  show ?thesis
    using t GetPreloadedBatch_reread [OF h, of 0 1] d pr
    by (simp add: List.map_filter_simps)
qed


section \<open>Driver calls\<close>

lemma run_static:
  "trace (snd (run st d)) = trace d \<and> faulty (snd (run st d)) = faulty d
   \<and> now (snd (run st d)) = now d \<and> procs (snd (run st d)) = procs d"
  by (cases st) (auto split: option.splits)

lemma driver_trace: "trace (snd (driver st d)) = trace d @ [st]"
  using run_static [of st "d\<lparr>trace := trace d @ [st]\<rparr>"] by (simp add: driver_def Let_def)

lemma driver_traceD: "driver st d = (r, d') \<Longrightarrow> trace d' = trace d @ [st]"
  using driver_trace [of st d] by simp

lemma driver_static:
  "faulty (snd (driver st d)) = faulty d \<and> now (snd (driver st d)) = now d
   \<and> procs (snd (driver st d)) = procs d"
  using run_static [of st "d\<lparr>trace := trace d @ [st]\<rparr>"] by (simp add: driver_def Let_def)

text \<open>What a driver call that did not fail did to the tables and the pending rows.\<close>

lemma driver_ok:
  assumes "driver st d = (r, d')" "r \<noteq> Failed"
  shows "tables d' = tables (snd (run st d)) \<and> pending d' = pending (snd (run st d))
         \<and> fst (run st (d\<lparr>trace := trace d @ [st]\<rparr>)) = r"
  using assms by (cases st) (auto simp: driver_def Let_def split: if_splits option.splits)



lemma run_Failed: "run st d = (Failed, d') \<Longrightarrow> d' = d"
  by (cases st) (auto split: option.splits if_splits)

lemma driver_cases:
  assumes "driver st d = (r, d')"
  shows "(r = Failed \<longrightarrow> d' = d\<lparr>trace := trace d @ [st]\<rparr>)
         \<and> (r \<noteq> Failed \<longrightarrow> run st (d\<lparr>trace := trace d @ [st]\<rparr>) = (r, d'))"
  using assms run_Failed [of st "d\<lparr>trace := trace d @ [st]\<rparr>" d']
  by (auto simp: driver_def Let_def split: if_splits)

lemma driver_DropIfExists:
  assumes "driver (DropIfExists t) d = (r, d')"
  shows "pending d' = pending d
         \<and> (if r = Failed then tables d' = tables d else tables d' = (tables d)(t := None))"
  using driver_cases [OF assms] by (cases "r = Failed") auto





section \<open>Inserting an empty batch\<close>

text \<open>
  Claim C10. For every table name and column list, \<open>InsertBatch\<close> with an empty record
  list returns success at once on both connectors: the database is exactly as before, so
  no transaction was begun and no statement issued (the trace of driver calls has not
  grown) and the target table is unchanged; seen from a job, the world is unchanged.
  For contrast, with a record to insert the first driver call is the \<^verbatim>\<open>Begin\<close> of a
  transaction.
\<close>

theorem InsertBatch_empty_noop:
  "InsertBatch MariaDB tableName [] columns d = (Inr (), d)
   \<and> InsertBatch Oracle tableName [] columns d = (Inr (), d)
   \<and> trace (snd (InsertBatch e tableName [] columns d)) = trace d
   \<and> tables (snd (InsertBatch e tableName [] columns d)) = tables d
   \<and> on c (\<lambda>e. InsertBatch e tableName [] columns) w = (Inr (), w)
   \<and> take (Suc (length (trace d))) (trace (snd (InsertBatch e tableName (r # rs) columns d)))
       = trace d @ [TxBegin]"
proof -
  have tr: "\<And>st d. \<exists>ss. trace (snd (driver st d)) = trace d @ st # ss"
    by (simp add: driver_trace)
  have grow: "\<And>st d x. trace (snd (driver st d)) = trace d @ [st]"
    by (simp add: driver_trace)
  have ie: "\<And>t cols rows d. \<exists>ss. trace (snd (insertEach t cols rows d)) = trace d @ ss"
  proof -
    fix t cols rows d
    show "\<exists>ss. trace (snd (insertEach t cols rows d)) = trace d @ ss"
    proof (induction rows arbitrary: d)
      case Nil
      show ?case by simp
    next
      case (Cons a rows)
      obtain rep d1 where d1: "driver (InsertRows t cols [a]) d = (rep, d1)" by force
      have t1: "trace d1 = trace d @ [InsertRows t cols [a]]"
        using driver_trace [of "InsertRows t cols [a]" d] d1 by simp
      from Cons [of d1] obtain ss where "trace (snd (insertEach t cols rows d1)) = trace d1 @ ss"
        by blast
      with d1 t1 show ?case by (cases "rep = Failed") auto
    qed
  qed
  have first: "take (Suc (length (trace d))) (trace (snd (InsertBatch e tableName (r # rs) columns d)))
       = trace d @ [TxBegin]"
  proof (cases e)
    case MariaDB
    obtain r1 d1 where d1: "driver TxBegin d = (r1, d1)" by force
    obtain r2 d2 where d2: "driver (InsertRows tableName (insertColumns columns r) (r # rs)) d1 = (r2, d2)" by force
    obtain r3 d3 where d3: "driver TxRollback d2 = (r3, d3)" by force
    obtain r4 d4 where d4: "driver TxCommit d2 = (r4, d4)" by force
    have "trace d1 = trace d @ [TxBegin]" using driver_traceD [OF d1] .
    moreover have "trace d2 = trace d1 @ [InsertRows tableName (insertColumns columns r) (r # rs)]"
      using driver_traceD [OF d2] .
    moreover have "trace d3 = trace d2 @ [TxRollback]" using driver_traceD [OF d3] .
    moreover have "trace d4 = trace d2 @ [TxCommit]" using driver_traceD [OF d4] .
    ultimately show ?thesis using MariaDB d1 d2 d3 d4 by auto
  next
    case Oracle
    obtain r1 d1 where d1: "driver TxBegin d = (r1, d1)" by force
    obtain r2 d2 where d2: "driver (PrepareInsert tableName (insertColumns columns r)) d1 = (r2, d2)" by force
    obtain ok d3 where d3: "insertEach tableName (insertColumns columns r) (r # rs) d2 = (ok, d3)" by force
    obtain r4 d4 where d4: "driver TxRollback d3 = (r4, d4)" by force
    obtain r5 d5 where d5: "driver TxCommit d3 = (r5, d5)" by force
    have t1: "trace d1 = trace d @ [TxBegin]" using driver_traceD [OF d1] .
    have t2: "trace d2 = trace d1 @ [PrepareInsert tableName (insertColumns columns r)]"
      using driver_traceD [OF d2] .
    obtain ss where t3: "trace d3 = trace d2 @ ss"
      using ie [of tableName "insertColumns columns r" "r # rs" d2] d3 by auto
    have t4: "trace d4 = trace d3 @ [TxRollback]" using driver_traceD [OF d4] .
    have t5: "trace d5 = trace d3 @ [TxCommit]" using driver_traceD [OF d5] .
    show ?thesis using Oracle d1 d2 d3 d4 d5 t1 t2 t3 t4 t5 by auto
  qed
  have "on c (\<lambda>e. InsertBatch e tableName [] columns) w = (Inr (), w)"
    by (simp add: on_def)
  with first show ?thesis by simp
qed

section \<open>Swapping the tables\<close>







lemma DropTable_tables:
  "tables (snd (DropTable e t d)) x =
     (if fst (DropTable e t d) = Inr () \<and> x = t then None else tables d x)"
proof -
  obtain r d1 where s: "driver (DropIfExists t) d = (r, d1)" by (cases "driver (DropIfExists t) d")
  from driver_DropIfExists [OF s] show ?thesis
    by (cases "r = Failed") (simp_all add: DropTable_def s)
qed




section \<open>Start-up\<close>

lemma connectAll_fails:
  assumes "n \<in> set names" "\<not> connects env e n \<or> \<not> pings env e n"
  shows "\<exists>msg. connectAll env e names connections = Inl msg"
  using assms by (induction names arbitrary: connections) auto

text \<open>
  Claim C9, as stated, fails: with databases \<open>a\<close> and \<open>b\<close> configured and \<open>b\<close>
  unreachable, \<open>main\<close> ends the process although the only job reads and writes \<open>a\<close>,
  which connects and pings; that job is never started.
\<close>

theorem main_unrelated_job_not_started:
  "main ex_cfg ex_env = Fatal ''Failed to connect to MariaDB b''
   \<and> connects ex_env MariaDB ''a'' \<and> pings ex_env MariaDB ''a''
   \<and> map SourceDB (Sync ex_cfg) = [''a''] \<and> map TargetDB (Sync ex_cfg) = [''a'']"
  by (simp add: main_def ex_cfg_def ex_env_def Fatalf_def engineName_def)

text \<open>
  Claim C9, amended. When any configured Oracle or MariaDB database fails to connect or
  to ping at start-up, \<open>main\<close> ends the whole process before any job task is spawned,
  whichever connections the jobs use: the jobs of the failing connection are never
  started, and neither is any other job.
\<close>

theorem main_fatal_on_connection_failure:
  assumes "(n \<in> set (OracleDBs cfg) \<and> (\<not> connects env Oracle n \<or> \<not> pings env Oracle n))
     \<or> (n \<in> set (MariaDBs cfg) \<and> (\<not> connects env MariaDB n \<or> \<not> pings env MariaDB n))"
  shows "(\<exists>msg. main cfg env = Fatal msg) \<and> (\<forall>jobs. main cfg env \<noteq> Started jobs)"
proof -
  have "\<exists>msg. main cfg env = Fatal msg"
  proof (cases "connectAll env Oracle (OracleDBs cfg) Map.empty")
    case (Inl msg)
    then show ?thesis by (simp add: main_def Fatalf_def)
  next
    case (Inr c1)
    with assms connectAll_fails [of n "OracleDBs cfg" env Oracle Map.empty]
    have m: "n \<in> set (MariaDBs cfg)" "\<not> connects env MariaDB n \<or> \<not> pings env MariaDB n"
      by auto
    from connectAll_fails [OF m, of c1] Inr show ?thesis
      by (auto simp: main_def Fatalf_def)
  qed
  then show ?thesis by auto
qed

theorem main_fatal_on_connection_failure_witness:
  "''b'' \<in> set (MariaDBs ex_cfg) \<and> connects ex_env MariaDB ''b'' = False
   \<and> main ex_cfg ex_env = Fatal ''Failed to connect to MariaDB b''"
proof -
  have h: "''b'' \<in> set (MariaDBs ex_cfg)" "connects ex_env MariaDB ''b'' = False"
    by (simp_all add: ex_cfg_def ex_env_def)
  have e: "main ex_cfg ex_env = Fatal ''Failed to connect to MariaDB b''"
    by (simp add: main_def ex_cfg_def ex_env_def Fatalf_def engineName_def)
  from h main_fatal_on_connection_failure [of "''b''" ex_cfg ex_env]
  have "\<exists>msg. main ex_cfg ex_env = Fatal msg" by simp
  with h e show ?thesis by simp
qed


section \<open>Frame of a failing cycle\<close>

lemma quiet_refl: "quiet S d d"
  by (simp add: quiet_def)

lemma quiet_trans: "quiet S d1 d2 \<Longrightarrow> quiet S d2 d3 \<Longrightarrow> quiet S d1 d3"
  by (simp add: quiet_def)

lemma quiet_mono: "quiet S d d' \<Longrightarrow> S \<subseteq> S' \<Longrightarrow> quiet S' d d'"
  by (auto simp: quiet_def)

lemma commit_frame: "list_all (\<lambda>e. fst e \<in> S) ps \<Longrightarrow> x \<notin> S \<Longrightarrow> commit ps T x = T x"
proof (induction ps arbitrary: T)
  case Nil
  show ?case by simp
next
  case (Cons a ps)
  obtain t rows where a: "a = (t, rows)" by (cases a)
  from Cons.prems a have "t \<noteq> x" by auto
  with Cons a show ?case by (auto split: option.splits)
qed

lemma driver_issued:
  assumes "driver st d = (r, d')"
  shows "issued P d' = issued P d + (if P st then 1 else 0)"
  using driver_traceD [OF assms] by (simp add: issued_def)

lemma driver_quiet:
  assumes dr: "driver st d = (r, d')" and nr: "\<not> isRename st" and np: "\<forall>n a. st \<noteq> CallProc n a"
    and wr: "written st \<subseteq> S" and cm: "st = TxCommit \<longrightarrow> inTx S d"
  shows "quiet S d d'"
proof -
  have i: "issued isRename d' = issued isRename d"
    using driver_issued [OF dr, of isRename] nr by simp
  have "\<forall>x. x \<notin> S \<longrightarrow> tables d' x = tables d x"
  proof (cases "r = Failed")
    case True
    with driver_cases [OF dr] show ?thesis by simp
  next
    case False
    with driver_cases [OF dr] have ru: "run st (d\<lparr>trace := trace d @ [st]\<rparr>) = (r, d')" by simp
    show ?thesis
    proof (cases st)
      case TxCommit
      with cm have "list_all (\<lambda>e. fst e \<in> S) (pending d)" by (simp add: inTx_def)
      with ru TxCommit show ?thesis by (auto simp: commit_frame)
    qed (use ru nr np wr in \<open>auto split: option.splits if_splits\<close>)
  qed
  with i show ?thesis by (simp add: quiet_def)
qed

lemma driver_inTx:
  assumes dr: "driver st d = (r, d')" and wr: "written st \<subseteq> S"
  shows "(st = TxBegin \<and> r \<noteq> Failed) \<or> inTx S d \<Longrightarrow> inTx S d'"
proof -
  assume a: "(st = TxBegin \<and> r \<noteq> Failed) \<or> inTx S d"
  show "inTx S d'"
  proof (cases "r = Failed")
    case True
    with driver_cases [OF dr] a show ?thesis by (auto simp: inTx_def)
  next
    case False
    with driver_cases [OF dr] have ru: "run st (d\<lparr>trace := trace d @ [st]\<rparr>) = (r, d')" by simp
    show ?thesis
      by (cases st) (use ru a wr in \<open>auto simp: inTx_def split: option.splits if_splits\<close>)
  qed
qed

lemma begin_step:
  assumes "driver TxBegin d = (r, d1)"
  shows "quiet S d d1" and "r \<noteq> Failed \<Longrightarrow> inside S d d1"
proof -
  show q: "quiet S d d1" using driver_quiet [OF assms, of S] by simp
  assume "r \<noteq> Failed"
  with driver_inTx [OF assms, of S] q show "inside S d d1" by (simp add: inside_def)
qed

lemma inside_step:
  assumes "inside S d0 d" "driver st d = (r, d')" "\<not> isRename st" "\<forall>n a. st \<noteq> CallProc n a"
    "written st \<subseteq> S"
  shows "inside S d0 d'"
proof -
  from assms(1) have q: "quiet S d0 d" and t: "inTx S d" by (simp_all add: inside_def)
  have "quiet S d d'" using driver_quiet [OF assms(2,3,4,5)] t by simp
  with q have "quiet S d0 d'" by (rule quiet_trans)
  moreover have "inTx S d'" using driver_inTx [OF assms(2,5)] t by simp
  ultimately show ?thesis by (simp add: inside_def)
qed

lemma inside_quiet: "inside S d0 d \<Longrightarrow> quiet S d0 d"
  by (simp add: inside_def)

lemma createStmt_props:
  "\<not> isRename (createStmt orig t sch)" "\<forall>n a. createStmt orig t sch \<noteq> CallProc n a"
  "written (createStmt orig t sch) = {t}"
  by (simp_all add: createStmt_def)

lemma CreateTempTable_quiet: "quiet {t} d (snd (CreateTempTable e orig t schema d))"
proof -
  obtain r1 d1 where s1: "driver TxBegin d = (r1, d1)" by (cases "driver TxBegin d")
  obtain r2 d2 where s2: "driver (DropIfExists t) d1 = (r2, d2)" by (cases "driver (DropIfExists t) d1")
  obtain r2r d2r where s2r: "driver TxRollback d2 = (r2r, d2r)" by (cases "driver TxRollback d2")
  show ?thesis
  proof (cases "r1 = Failed")
    case True
    with s1 begin_step(1) [OF s1, of "{t}"] show ?thesis by (cases e) simp_all
  next
    case False
    note i1 = begin_step(2) [OF s1 False, of "{t}"]
    have i2: "inside {t} d d2" using inside_step [OF i1 s2] by simp
    have i2r: "inside {t} d d2r" using inside_step [OF i2 s2r] by simp
    show ?thesis
    proof (cases schema)
      case None
      with False s1 s2 s2r i2 i2r show ?thesis
        by (cases e) (simp_all add: inside_quiet)
    next
      case (Some sch)
      obtain r3 d3 where s3: "driver (createStmt orig t sch) d2 = (r3, d3)"
        by (cases "driver (createStmt orig t sch) d2")
      obtain r3r d3r where s3r: "driver TxRollback d3 = (r3r, d3r)" by (cases "driver TxRollback d3")
      obtain r4 d4 where s4: "driver TxCommit d3 = (r4, d4)" by (cases "driver TxCommit d3")
      have i3: "inside {t} d d3" using inside_step [OF i2 s3] createStmt_props [of orig t sch] by simp
      have i3r: "inside {t} d d3r" using inside_step [OF i3 s3r] by simp
      have i4: "inside {t} d d4" using inside_step [OF i3 s4] by simp
      from Some False s1 s2 s2r s3 s3r s4 i2r i3r i4 show ?thesis
        by (cases e) (simp_all add: inside_quiet)
    qed
  qed
qed

lemma insertEach_inside:
  assumes "inside S d0 d" "t \<in> S"
  shows "inside S d0 (snd (insertEach t cols rows d))"
  using assms(1)
proof (induction rows arbitrary: d)
  case Nil
  then show ?case by simp
next
  case (Cons a rows)
  obtain r1 d1 where s1: "driver (InsertRows t cols [a]) d = (r1, d1)"
    by (cases "driver (InsertRows t cols [a]) d")
  have i1: "inside S d0 d1" using inside_step [OF Cons.prems s1] assms(2) by simp
  from Cons.IH [OF i1] i1 s1 show ?case by simp
qed

lemma InsertBatch_quiet: "quiet {t} d (snd (InsertBatch e t records columns d))"
proof (cases records)
  case Nil
  then show ?thesis by (simp add: quiet_refl)
next
  case (Cons a rs)
  obtain r1 d1 where s1: "driver TxBegin d = (r1, d1)" by (cases "driver TxBegin d")
  show ?thesis
  proof (cases "r1 = Failed")
    case True
    with Cons s1 begin_step(1) [OF s1, of "{t}"] show ?thesis by (cases e) simp_all
  next
    case False
    note i1 = begin_step(2) [OF s1 False, of "{t}"]
    let ?cols = "insertColumns columns a"
    show ?thesis
    proof (cases e)
      case MariaDB
      obtain r2 d2 where s2: "driver (InsertRows t ?cols (a # rs)) d1 = (r2, d2)"
        by (cases "driver (InsertRows t ?cols (a # rs)) d1")
      obtain r2r d2r where s2r: "driver TxRollback d2 = (r2r, d2r)" by (cases "driver TxRollback d2")
      obtain r3 d3 where s3: "driver TxCommit d2 = (r3, d3)" by (cases "driver TxCommit d2")
      have i2: "inside {t} d d2" using inside_step [OF i1 s2] by simp
      have i2r: "inside {t} d d2r" using inside_step [OF i2 s2r] by simp
      have i3: "inside {t} d d3" using inside_step [OF i2 s3] by simp
      from MariaDB Cons False s1 s2 s2r s3 i2r i3 show ?thesis
        by (simp add: inside_quiet)
    next
      case Oracle
      obtain r2 d2 where s2: "driver (PrepareInsert t ?cols) d1 = (r2, d2)"
        by (cases "driver (PrepareInsert t ?cols) d1")
      obtain k d3 where s3: "insertEach t ?cols (a # rs) d2 = (k, d3)"
        by (cases "insertEach t ?cols (a # rs) d2")
      obtain r3r d3r where s3r: "driver TxRollback d3 = (r3r, d3r)" by (cases "driver TxRollback d3")
      obtain r4 d4 where s4: "driver TxCommit d3 = (r4, d4)" by (cases "driver TxCommit d3")
      have i2: "inside {t} d d2" using inside_step [OF i1 s2] by simp
      have i3: "inside {t} d d3" using insertEach_inside [OF i2, of t ?cols "a # rs"] s3 by simp
      have i3r: "inside {t} d d3r" using inside_step [OF i3 s3r] by simp
      have i4: "inside {t} d d4" using inside_step [OF i3 s4] by simp
      have "InsertBatch Oracle t (a # rs) columns d =
          (if r1 = Failed then (Inl (Error ''transaction begin failed''), d1)
           else if r2 = Failed then (Inl (Error ''prepare statement failed''), d2)
           else if \<not> k then (Inl (Error ''insert failed''), d3r)
           else if r4 = Failed then (Inl (Error ''commit''), d4) else (Inr (), d4))"
        using s3 by (simp add: s1 s2 s3r s4 del: insertEach.simps)
      with Oracle Cons False i2 i3r i4 show ?thesis
        by (simp add: inside_quiet)
    qed
  qed
qed

lemma DropTable_quiet: "quiet {t} d (snd (DropTable e t d))"
proof -
  obtain r1 d1 where s1: "driver (DropIfExists t) d = (r1, d1)" by (cases "driver (DropIfExists t) d")
  from driver_quiet [OF s1, of "{t}"] s1 show ?thesis by (simp add: DropTable_def)
qed

lemma GetCount_quiet: "quiet {} d (snd (GetCount e schema d))"
proof (cases schema)
  case None
  then show ?thesis by (simp add: GetCount_def quiet_refl)
next
  case (Some sch)
  let ?st = "SelectCount (case Columns sch of [] \<Rightarrow> ''*'' | c # x \<Rightarrow> Name c) (PrimaryKey sch)"
  obtain r1 d1 where s1: "driver ?st d = (r1, d1)" by (cases "driver ?st d")
  from driver_quiet [OF s1, of "{}"] have "quiet {} d d1" by simp
  with Some s1 show ?thesis by (cases r1) (simp_all add: GetCount_def Let_def)
qed

lemma GetBatch_db_quiet: "quiet {} d (snd (GetBatch_db e tableName offset batchSize schema d))"
proof (cases "batchSize \<le> 0 \<or> offset < 0 \<or> schema = None")
  case True
  then show ?thesis by (auto simp: GetBatch_db_def quiet_refl)
next
  case False
  then obtain sch where sch: "schema = Some sch" by auto
  let ?st = "pageQuery e tableName offset batchSize sch"
  obtain r1 d1 where s1: "driver ?st d = (r1, d1)" by (cases "driver ?st d")
  have "\<not> isRename ?st" "\<forall>n a. ?st \<noteq> CallProc n a" "written ?st = {}" "?st \<noteq> TxCommit"
    by (cases e; simp add: pageQuery_def)+
  with driver_quiet [OF s1, of "{}"] have "quiet {} d d1" by simp
  with False sch s1 show ?thesis by (cases r1) (simp_all add: GetBatch_db_def)
qed

lemma wquiet_refl: "wquiet c t w w"
  by (simp add: wquiet_def quiet_refl)

lemma wquiet_trans: "wquiet c t w1 w2 \<Longrightarrow> wquiet c t w2 w3 \<Longrightarrow> wquiet c t w1 w3"
  unfolding wquiet_def by (blast intro: quiet_trans)

lemma on_target_quiet:
  assumes "\<And>e d. quiet {t} d (snd (f e d))"
  shows "wquiet (conn c) t w (snd (on c f w))"
proof -
  obtain r d' where f: "f (engine_of c) (w (conn c)) = (r, d')" by (cases "f (engine_of c) (w (conn c))")
  from assms [of "w (conn c)" "engine_of c"] f have "quiet {t} (w (conn c)) d'" by simp
  with f show ?thesis by (simp add: on_def wquiet_def quiet_refl)
qed

lemma on_source_quiet:
  assumes "\<And>e d. quiet {} d (snd (f e d))"
  shows "wquiet c0 t w (snd (on c f w))"
proof -
  obtain r d' where f: "f (engine_of c) (w (conn c)) = (r, d')" by (cases "f (engine_of c) (w (conn c))")
  from assms [of "w (conn c)" "engine_of c"] f have q: "quiet {} (w (conn c)) d'" by simp
  then have "quiet {t} (w (conn c)) d'" by (rule quiet_mono) simp
  with q f show ?thesis by (auto simp: on_def wquiet_def quiet_refl)
qed

lemma preloadLoop_quiet:
  "wquiet (conn (target s)) t w (snd (snd (preloadLoop s t tot bs p w off)))"
proof (induction s t tot bs p w off rule: preloadLoop.induct)
  case (1 s t tot bs p w off)
  show ?case
  proof (cases "off < tot")
    case False
    then show ?thesis by (subst preloadLoop.simps) (simp add: wquiet_refl)
  next
    case True
    obtain res p1 where g: "GetPreloadedBatch p off bs = (res, p1)"
      by (cases "GetPreloadedBatch p off bs")
    show ?thesis
    proof (cases res)
      case (Inl f)
      with True g show ?thesis by (subst preloadLoop.simps) (simp add: wquiet_refl)
    next
      case (Inr batch)
      show ?thesis
      proof (cases "batch = []")
        case True
        with \<open>off < tot\<close> g Inr show ?thesis by (subst preloadLoop.simps) (simp add: wquiet_refl)
      next
        case False
        let ?ins = "\<lambda>e. InsertBatch e t batch (GetTargetColumns p1)"
        obtain r1 w1 where i: "on (target s) ?ins w = (r1, w1)" by (cases "on (target s) ?ins w")
        have q1: "wquiet (conn (target s)) t w w1"
          using on_target_quiet [where f = ?ins and t = t and c = "target s" and w = w] InsertBatch_quiet i by simp
        show ?thesis
        proof (cases r1)
          case (Inl f)
          with True g Inr False i q1 show ?thesis by (subst preloadLoop.simps) simp
        next
          case r: (Inr u)
          have "wquiet (conn (target s)) t w1
                  (snd (snd (preloadLoop s t tot bs p1 w1 (wrap64 (off + bs)))))"
            using "1.IH" [OF True g [symmetric] Inr False i [symmetric] r] .
          with q1 have "wquiet (conn (target s)) t w
                  (snd (snd (preloadLoop s t tot bs p1 w1 (wrap64 (off + bs)))))"
            by (rule wquiet_trans)
          with True g Inr False i r show ?thesis by (subst preloadLoop.simps) simp
        qed
      qed
    qed
  qed
qed

lemma streamLoop_quiet:
  "wquiet (conn (target s)) t w (snd (snd (streamLoop s t tot p w off bs)))"
proof (induction s t tot p w off bs rule: streamLoop.induct)
  case (1 s t tot p w off bs)
  show ?case
  proof (cases "off < tot")
    case False
    then show ?thesis by (subst streamLoop.simps) (simp add: wquiet_refl)
  next
    case True
    let ?get = "\<lambda>e. GetBatch_db e (SourceTable (config s)) off bs (sourceSchema_s s)"
    obtain r0 w1 where g: "on (source s) ?get w = (r0, w1)" by (cases "on (source s) ?get w")
    have q0: "wquiet (conn (target s)) t w w1"
      using on_source_quiet [where f = ?get and ?c0.0 = "conn (target s)" and t = t and c = "source s" and w = w] GetBatch_db_quiet g by simp
    show ?thesis
    proof (cases r0)
      case (Inl f)
      with True g q0 show ?thesis by (subst streamLoop.simps) simp
    next
      case (Inr batch)
      show ?thesis
      proof (cases "GetBatch (Process p batch) bs")
        case (Inl f)
        with True g Inr q0 show ?thesis by (subst streamLoop.simps) simp
      next
        case gb: (Inr pr)
        obtain processed p2 where pr: "pr = (processed, p2)" by (cases pr)
        show ?thesis
        proof (cases "processed = []")
          case True
          with \<open>off < tot\<close> g Inr gb pr q0 show ?thesis by (subst streamLoop.simps) simp
        next
          case False
          let ?ins = "\<lambda>e. InsertBatch e t processed (GetTargetColumns p2)"
          let ?bs' = "if len processed < bs then len processed else bs"
          obtain r1 w2 where i: "on (target s) ?ins w1 = (r1, w2)" by (cases "on (target s) ?ins w1")
          have q1: "wquiet (conn (target s)) t w1 w2"
            using on_target_quiet [where f = ?ins and t = t and c = "target s" and w = w1] InsertBatch_quiet i by simp
          with q0 have q2: "wquiet (conn (target s)) t w w2" by (rule wquiet_trans)
          show ?thesis
          proof (cases r1)
            case (Inl f)
            with True g Inr gb pr False i q2 show ?thesis by (subst streamLoop.simps) (simp add: Let_def)
          next
            case r: (Inr u)
            have "wquiet (conn (target s)) t w2
                    (snd (snd (streamLoop s t tot p2 w2 (off + ?bs') ?bs')))"
              using "1.IH" [OF True g [symmetric] Inr gb pr [symmetric] False refl i [symmetric] r] .
            with q2 have "wquiet (conn (target s)) t w
                    (snd (snd (streamLoop s t tot p2 w2 (off + ?bs') ?bs')))"
              by (rule wquiet_trans)
            with True g Inr gb pr False i r show ?thesis by (subst streamLoop.simps) (simp add: Let_def)
          qed
        qed
      qed
    qed
  qed
qed

lemma processData_quiet:
  "wquiet (conn (target s)) t w (snd (snd (processData s t w)))"
proof (cases "HasPreloadedData (processor s)")
  case True
  then show ?thesis by (simp add: processData_def preloadLoop_quiet)
next
  case False
  let ?cnt = "\<lambda>e. GetCount e (sourceSchema_s s)"
  obtain r0 w1 where g: "on (source s) ?cnt w = (r0, w1)" by (cases "on (source s) ?cnt w")
  have q0: "wquiet (conn (target s)) t w w1"
    using on_source_quiet [where f = ?cnt and ?c0.0 = "conn (target s)" and t = t and c = "source s" and w = w] GetCount_quiet g by simp
  show ?thesis
  proof (cases r0)
    case (Inl f)
    with False g q0 show ?thesis by (simp add: processData_def)
  next
    case (Inr tot)
    have "wquiet (conn (target s)) t w1
            (snd (snd (streamLoop s t tot (processor s) w1 0 (BatchSize (config s)))))"
      by (rule streamLoop_quiet)
    with q0 have "wquiet (conn (target s)) t w
            (snd (snd (streamLoop s t tot (processor s) w1 0 (BatchSize (config s)))))"
      by (rule wquiet_trans)
    with False g Inr show ?thesis by (simp add: processData_def)
  qed
qed

lemma preloadHead_loop:
  "preloadHead s t w0 p w offset \<Longrightarrow>
   processData s t w0
     = preloadLoop s t (len (sourceData (processor s))) (BatchSize (config s)) p w offset"
proof (induction rule: preloadHead.induct)
  case preload_first
  then show ?case by (simp add: processData_def)
next
  case (preload_next p w offset processedBatch p1 w1)
  then show ?case
    by (subst (asm) preloadLoop.simps) simp
qed

lemma streamHead_loop:
  "streamHead s t w0 totalCount p w offset batchSize \<Longrightarrow>
   processData s t w0 = streamLoop s t totalCount p w offset batchSize"
proof (induction rule: streamHead.induct)
  case (stream_first totalCount w1)
  then show ?case by (simp add: processData_def)
next
  case (stream_next totalCount p w offset batchSize batch w1 processedBatch p2 w2 batchSize')
  then show ?case
    by (subst (asm) streamLoop.simps) (simp add: Let_def)
qed

lemma callFails_processData:
  "callFails s t w0 m p w \<Longrightarrow> processData s t w0 = (Inl (Error m), p, w)"
proof (induction rule: callFails.induct)
  case (count_fails m w1)
  then show ?case by (simp add: processData_def)
next
  case (extract_fails totalCount p w offset batchSize m w1)
  from streamHead_loop [OF extract_fails(1)] extract_fails(2,3) show ?case
    by (subst (asm) streamLoop.simps) simp
next
  case (insert_fails totalCount p w offset batchSize batch w1 processedBatch p2 m w2)
  from streamHead_loop [OF insert_fails(1)] insert_fails(2-) show ?case
    by (subst (asm) streamLoop.simps) (simp add: Let_def wrapErr_def)
next
  case (preload_insert_fails p w offset processedBatch p1 m w1)
  from preloadHead_loop [OF preload_insert_fails(1)] preload_insert_fails(2-) show ?case
    by (subst (asm) preloadLoop.simps) (simp add: wrapErr_def)
qed

lemmas ex_eval =
  ex_job_def ex_world_def ex_db_def ex_schema_def ex_col_def ex_old_def
  syncTables_def processData_def preloadLoop.simps tempTableName_of_def HasPreloadedData_def
  SetSourceData_def NewDataProcessor_def WithSchemas_def GetPreloadedBatch_def GetTargetColumns_def
  processRecord_def identityTransform_def List.map_filter_simps
  on_def driver_def DropTable_def backupName_def createStmt_def insertColumns_def
  wrap64_def len_def wrapErr_def Let_def

text \<open>
  Claim C3, as stated, fails: the drop of the temp table after a failed batch can fail
  itself, and then the temp table stays. Here the connection to the target is lost from
  the fifth driver call on: the first \<open>InsertBatch\<close> cannot begin its transaction, the
  cycle is reported failed, the drop fails and is only logged, and the temp table still
  exists.
\<close>

theorem failed_cycle_may_keep_temp_table:
  "fst (syncTables ex_job (ex_world [(''t'', [ex_old])] (\<lambda>i. 4 \<le> i)))
     = Inl (Error ''data processing failed: insert batch failed: transaction begin failed'')
   \<and> tables (snd (snd (syncTables ex_job (ex_world [(''t'', [ex_old])] (\<lambda>i. 4 \<le> i)))) ''m'') ''t_temp''
     = Some []"
  by (simp add: ex_eval)

text \<open>
  Claim C3, amended. For every cycle whose temp table was created and in which a call of
  \<open>GetCount\<close>, of \<open>GetBatch\<close> or of \<open>InsertBatch\<close> returns an error, in the first
  iteration of the copy or in a later one: \<open>processData\<close> stops with that error, the
  cycle is reported failed with the error wrapped, and the only thing done after the
  error is one drop of the temp table; when that drop succeeds the temp table no longer
  exists. On every connection every table other than the target's temp table holds
  exactly its pre-cycle content, so the live table does whenever the temp-table suffix is
  not empty; and no rename statement was sent to any connection: no swap was attempted.
\<close>

theorem failed_extraction_leaves_live_table:
  assumes cr: "on (target s) (\<lambda>e. CreateTempTable e (TargetTable (config s)) (tempTableName_of s)
                   (targetSchema (processor s))) w = (Inr (), w1)"
    and fl: "callFails s (tempTableName_of s) w1 m p2 w2"
    and fin: "w' = snd (on (target s) (\<lambda>e. DropTable e (tempTableName_of s)) w2)"
  shows "syncTables s w = (Inl (Error (''data processing failed: '' @ m)), s\<lparr>processor := p2\<rparr>, w')
         \<and> (fst (on (target s) (\<lambda>e. DropTable e (tempTableName_of s)) w2) = Inr ()
              \<longrightarrow> tables (w' (conn (target s))) (tempTableName_of s) = None)
         \<and> (\<forall>c x. (c = conn (target s) \<longrightarrow> x \<noteq> tempTableName_of s) \<longrightarrow> tables (w' c) x = tables (w c) x)
         \<and> (TempTableSuffix (config s) \<noteq> []
              \<longrightarrow> tables (w' (conn (target s))) (TargetTable (config s))
                  = tables (w (conn (target s))) (TargetTable (config s)))
         \<and> (\<forall>c. issued isRename (w' c) = issued isRename (w c))"
proof -
  let ?c = "conn (target s)" and ?t = "tempTableName_of s"
  have pd: "processData s ?t w1 = (Inl (Error m), p2, w2)"
    using fl by (rule callFails_processData)
  have a: "syncTables s w = (Inl (Error (''data processing failed: '' @ m)), s\<lparr>processor := p2\<rparr>, w')"
    by (simp add: syncTables_def Let_def cr pd fin wrapErr_def)
  have q1: "wquiet ?c ?t w w1"
    using on_target_quiet [where f = "\<lambda>e. CreateTempTable e (TargetTable (config s)) ?t (targetSchema (processor s))"
        and t = ?t and c = "target s" and w = w] CreateTempTable_quiet cr by simp
  have q2: "wquiet ?c ?t w1 w2"
    using processData_quiet [of s ?t w1] pd by simp
  have q3: "wquiet ?c ?t w2 w'"
    using on_target_quiet [where f = "\<lambda>e. DropTable e ?t" and t = ?t and c = "target s" and w = w2]
      DropTable_quiet fin by simp
  from q1 q2 q3 have q: "wquiet ?c ?t w w'" by (blast intro: wquiet_trans)
  have b: "fst (on (target s) (\<lambda>e. DropTable e ?t) w2) = Inr () \<longrightarrow> tables (w' ?c) ?t = None"
    using DropTable_tables [of "engine_of (target s)" ?t "w2 ?c" ?t]
    by (auto simp: fin on_def split: prod.splits)
  have c: "\<forall>c x. (c = ?c \<longrightarrow> x \<noteq> ?t) \<longrightarrow> tables (w' c) x = tables (w c) x"
    using q by (auto simp: wquiet_def quiet_def split: if_splits)
  have d: "\<forall>c. issued isRename (w' c) = issued isRename (w c)"
    using q by (simp add: wquiet_def quiet_def)
  have e: "TempTableSuffix (config s) \<noteq> [] \<longrightarrow>
      tables (w' ?c) (TargetTable (config s)) = tables (w ?c) (TargetTable (config s))"
    using c by (simp add: tempTableName_of_def)
  from a b c d e show ?thesis by blast
qed

lemmas ex_stream_eval =
  ex_stream_def ex_stream_world_def ex_db_def ex_schema_def ex_col_def ex_old_def
  tempTableName_of_def HasPreloadedData_def NewDataProcessor_def WithSchemas_def
  createColumnMapping_def GetColumnName_def ToLower_def RemoveUnderscores_def ToLower_char_def
  GetTargetColumns_def Process_def GetBatch_def processRecord_def identityTransform_def
  targetName_def
  on_def driver_def GetCount_def GetBatch_db_def pageQuery_def DropTable_def createStmt_def
  insertColumns_def selectCols_def project_def notNull_def wrap64_def len_def wrapErr_def Let_def

theorem failed_extraction_leaves_live_table_witness:
  "fst (syncTables (ex_stream ''SRC'' 1)
         (ex_stream_world [[''ID'' \<mapsto> Num 1], [''ID'' \<mapsto> Num 2]] (\<lambda>i. 2 \<le> i) [(''t'', [ex_old])]))
     = Inl (Error ''data processing failed: query failed'')
   \<and> tables (snd (snd (syncTables (ex_stream ''SRC'' 1)
         (ex_stream_world [[''ID'' \<mapsto> Num 1], [''ID'' \<mapsto> Num 2]] (\<lambda>i. 2 \<le> i) [(''t'', [ex_old])]))) ''m'') ''t''
     = Some [ex_old]
   \<and> tables (snd (snd (syncTables (ex_stream ''SRC'' 1)
         (ex_stream_world [[''ID'' \<mapsto> Num 1], [''ID'' \<mapsto> Num 2]] (\<lambda>i. 2 \<le> i) [(''t'', [ex_old])]))) ''m'') ''t_temp''
     = None"
proof -
  let ?s = "ex_stream ''SRC'' 1"
  let ?p = "processor ?s"
  let ?w = "ex_stream_world [[''ID'' \<mapsto> Num 1], [''ID'' \<mapsto> Num 2]] (\<lambda>i. 2 \<le> i) [(''t'', [ex_old])]"
  let ?cr = "on (target ?s) (\<lambda>e. CreateTempTable e (TargetTable (config ?s)) (tempTableName_of ?s)
                   (targetSchema (processor ?s))) ?w"
  let ?w1 = "snd ?cr"
  let ?cn = "on (source ?s) (\<lambda>e. GetCount e (sourceSchema_s ?s)) ?w1"
  let ?w2 = "snd ?cn"
  let ?g1 = "on (source ?s) (\<lambda>e. GetBatch_db e (SourceTable (config ?s)) 0 (BatchSize (config ?s)) (sourceSchema_s ?s)) ?w2"
  let ?w3 = "snd ?g1"
  let ?i1 = "on (target ?s) (\<lambda>e. InsertBatch e (tempTableName_of ?s) [[''id'' \<mapsto> Num 1]] (GetTargetColumns ?p)) ?w3"
  let ?w4 = "snd ?i1"
  let ?g2 = "on (source ?s) (\<lambda>e. GetBatch_db e (SourceTable (config ?s)) (0 + 1) 1 (sourceSchema_s ?s)) ?w4"
  let ?w5 = "snd ?g2"
  let ?dr = "on (target ?s) (\<lambda>e. DropTable e (tempTableName_of ?s)) ?w5"
  have "fst ?cr = Inr ()" by (simp add: ex_stream_eval)
  then have cr: "?cr = (Inr (), ?w1)" by (cases ?cr) simp
  have np: "\<not> HasPreloadedData ?p" by (simp add: ex_stream_eval)
  have "fst ?cn = Inr 2" by (simp add: ex_stream_eval)
  then have cn: "?cn = (Inr 2, ?w2)" by (cases ?cn) simp
  have "fst ?g1 = Inr [[''ID'' \<mapsto> Num 1]]" by (simp add: ex_stream_eval fun_eq_iff)
  then have g1: "?g1 = (Inr [[''ID'' \<mapsto> Num 1]], ?w3)" by (cases ?g1) simp
  have gb: "GetBatch (Process ?p [[''ID'' \<mapsto> Num 1]]) (BatchSize (config ?s)) = Inr ([[''id'' \<mapsto> Num 1]], ?p)"
    by (simp add: ex_stream_eval fun_eq_iff)
  have "fst ?i1 = Inr ()" by (simp add: ex_stream_eval)
  then have i1: "?i1 = (Inr (), ?w4)" by (cases ?i1) simp
  have "fst ?g2 = Inl (Error ''query failed'')" by (simp add: ex_stream_eval)
  then have g2: "?g2 = (Inl (Error ''query failed''), ?w5)" by (cases ?g2) simp
  have bs: "BatchSize (config ?s) = 1" by (simp add: ex_stream_def)
  have h0: "streamHead ?s (tempTableName_of ?s) ?w1 2 ?p ?w2 0 (BatchSize (config ?s))"
    using np cn by (rule stream_first)
  have h1: "streamHead ?s (tempTableName_of ?s) ?w1 2 ?p ?w4 (0 + 1) 1"
    by (rule stream_next [OF h0 _ g1 gb _ i1]) (simp_all add: bs len_def)
  have fl: "callFails ?s (tempTableName_of ?s) ?w1 ''query failed'' ?p ?w5"
    by (rule extract_fails [OF h1 _ g2]) simp
  have dr: "fst ?dr = Inr ()" by (simp add: ex_stream_eval)
  have cfg: "TempTableSuffix (config ?s) \<noteq> []" "conn (target ?s) = ''m''"
    "TargetTable (config ?s) = ''t''" "tempTableName_of ?s = ''t_temp''"
    "tables (?w ''m'') ''t'' = Some [ex_old]"
    by (simp_all add: ex_stream_def tempTableName_of_def ex_stream_world_def ex_db_def)
  from failed_extraction_leaves_live_table [OF cr fl refl] dr cfg
  show ?thesis by simp
qed


section \<open>The backup of a swap\<close>





section \<open>A failing swap\<close>

lemma driver_issued_not:
  "driver st d = (r, d') \<Longrightarrow> \<not> P st \<Longrightarrow> issued P d' = issued P d"
  using driver_issued [of st d r d' P] by simp

lemma renameEach_issued:
  "(\<And>a b. \<not> P (AlterRename a b)) \<Longrightarrow> issued P (snd (renameEach ps d)) = issued P d"
proof (induction ps arbitrary: d)
  case Nil
  show ?case by simp
next
  case (Cons ab rest)
  obtain a b where ab: "ab = (a, b)" by (cases ab)
  obtain r1 d1 where s1: "driver (AlterRename a b) d = (r1, d1)" by (cases "driver (AlterRename a b) d")
  have "issued P d1 = issued P d" using driver_issued_not [OF s1] Cons.prems by simp
  with Cons.IH [OF Cons.prems, of d1] s1 ab show ?case by simp
qed

lemma SwapTables_no_drop:
  assumes ne: "temp \<noteq> backupName e orig d"
  shows "issued (\<lambda>st. st = DropIfExists temp) (snd (SwapTables e orig temp d))
           = issued (\<lambda>st. st = DropIfExists temp) d"
proof (cases e)
  case MariaDB
  let ?P = "\<lambda>st. st = DropIfExists temp"
  define b where "b = orig @ ''_backup''"
  have nb: "temp \<noteq> b" using ne MariaDB by (simp add: backupName_def b_def)
  obtain r0 d0 where s0: "driver (DropIfExists b) d = (r0, d0)" by (cases "driver (DropIfExists b) d")
  obtain r1 d1 where s1: "driver TxBegin d0 = (r1, d1)" by (cases "driver TxBegin d0")
  obtain r2 d2 where s2: "driver (DropIfExists b) d1 = (r2, d2)" by (cases "driver (DropIfExists b) d1")
  obtain r2r d2r where s2r: "driver TxRollback d2 = (r2r, d2r)" by (cases "driver TxRollback d2")
  obtain r3 d3 where s3: "driver (RenameTables [(orig, b), (temp, orig)]) d2 = (r3, d3)"
    by (cases "driver (RenameTables [(orig, b), (temp, orig)]) d2")
  obtain r3r d3r where s3r: "driver TxRollback d3 = (r3r, d3r)" by (cases "driver TxRollback d3")
  obtain r4 d4 where s4: "driver TxCommit d3 = (r4, d4)" by (cases "driver TxCommit d3")
  have unf: "SwapTables MariaDB orig temp d =
      (if r1 = Failed then (Inl Panic, d1)
       else if r2 = Failed then (Inl (Error ''drop backup table failed''), d2r)
       else if r3 = Failed then (Inl (Error ''swap tables failed''), d3r)
       else if r4 = Failed then (Inl (Error ''commit''), d4) else (Inr (), d4))"
    by (simp add: DropTable_def backupName_def Let_def b_def [symmetric] s0 s1 s2 s2r s3 s3r s4)
  have "issued ?P d0 = issued ?P d" using driver_issued_not [OF s0, of ?P] nb by auto
  moreover have "issued ?P d1 = issued ?P d0" using driver_issued_not [OF s1, of ?P] by simp
  moreover have "issued ?P d2 = issued ?P d1" using driver_issued_not [OF s2, of ?P] nb by auto
  moreover have "issued ?P d2r = issued ?P d2" using driver_issued_not [OF s2r, of ?P] by simp
  moreover have "issued ?P d3 = issued ?P d2" using driver_issued_not [OF s3, of ?P] by simp
  moreover have "issued ?P d3r = issued ?P d3" using driver_issued_not [OF s3r, of ?P] by simp
  moreover have "issued ?P d4 = issued ?P d3" using driver_issued_not [OF s4, of ?P] by simp
  ultimately show ?thesis unfolding MariaDB unf by simp
next
  case Oracle
  let ?P = "\<lambda>st. st = DropIfExists temp"
  define b where "b = backupName Oracle orig d"
  obtain r1 d1 where s1: "driver TxBegin d = (r1, d1)" by (cases "driver TxBegin d")
  obtain k d2 where s2: "renameEach [(orig, b), (temp, orig), (b, temp)] d1 = (k, d2)"
    by (cases "renameEach [(orig, b), (temp, orig), (b, temp)] d1")
  obtain r2r d2r where s2r: "driver TxRollback d2 = (r2r, d2r)" by (cases "driver TxRollback d2")
  obtain r3 d3 where s3: "driver TxCommit d2 = (r3, d3)" by (cases "driver TxCommit d2")
  have unf: "SwapTables Oracle orig temp d =
      (if r1 = Failed then (Inl (Error ''transaction begin failed''), d1)
       else if \<not> k then (Inl (Error ''rename operation failed''), d2r)
       else if r3 = Failed then (Inl (Error ''commit''), d3) else (Inr (), d3))"
    using s2 by (simp add: Let_def b_def [symmetric] s1 s2r s3 del: renameEach.simps)
  have "issued ?P d1 = issued ?P d" using driver_issued_not [OF s1, of ?P] by simp
  moreover have "issued ?P d2 = issued ?P d1"
    using renameEach_issued [of ?P "[(orig, b), (temp, orig), (b, temp)]" d1] s2
    by (simp del: renameEach.simps)
  moreover have "issued ?P d2r = issued ?P d2" using driver_issued_not [OF s2r, of ?P] by simp
  moreover have "issued ?P d3 = issued ?P d2" using driver_issued_not [OF s3, of ?P] by simp
  ultimately show ?thesis unfolding Oracle unf by simp
qed

text \<open>
  Claim C6. For every cycle in which \<open>SwapTables\<close> returns an error, the cycle fails
  with that error wrapped and nothing is done after the swap: the world the cycle ends
  in is the world the failing swap left, so no cleanup of the temp table is attempted.
  The failing swap touched no other connection, and unless the temp table is named like
  the swap's backup table, none of the swap's own statements drops the temp table
  either: the number of drops of the temp table the target has received is what it was
  before the swap.
\<close>

theorem swap_failure_leaves_temp_table:
  assumes cr: "on (target s) (\<lambda>e. CreateTempTable e (TargetTable (config s)) (tempTableName_of s)
                   (targetSchema (processor s))) w = (Inr (), w1)"
    and pd: "processData s (tempTableName_of s) w1 = (Inr (), p2, w2)"
    and sw: "on (target s) (\<lambda>e. SwapTables e (TargetTable (config s)) (tempTableName_of s)) w2
               = (Inl (Error m), w3)"
  shows "syncTables s w = (Inl (Error (''table swap failed: '' @ m)), s\<lparr>processor := p2\<rparr>, w3)
         \<and> (\<forall>c. c \<noteq> conn (target s) \<longrightarrow> w3 c = w2 c)
         \<and> (tempTableName_of s
              \<noteq> backupName (engine_of (target s)) (TargetTable (config s)) (w2 (conn (target s)))
            \<longrightarrow> issued (\<lambda>st. st = DropIfExists (tempTableName_of s)) (w3 (conn (target s)))
                = issued (\<lambda>st. st = DropIfExists (tempTableName_of s)) (w2 (conn (target s))))"
proof -
  have a: "syncTables s w = (Inl (Error (''table swap failed: '' @ m)), s\<lparr>processor := p2\<rparr>, w3)"
    by (simp add: syncTables_def Let_def cr pd sw wrapErr_def)
  let ?sw = "SwapTables (engine_of (target s)) (TargetTable (config s)) (tempTableName_of s) (w2 (conn (target s)))"
  from sw have w3: "w3 = w2(conn (target s) := snd ?sw)"
    by (auto simp: on_def split: prod.splits)
  then have b: "\<forall>c. c \<noteq> conn (target s) \<longrightarrow> w3 c = w2 c" by simp
  have c: "tempTableName_of s
              \<noteq> backupName (engine_of (target s)) (TargetTable (config s)) (w2 (conn (target s)))
            \<longrightarrow> issued (\<lambda>st. st = DropIfExists (tempTableName_of s)) (w3 (conn (target s)))
                = issued (\<lambda>st. st = DropIfExists (tempTableName_of s)) (w2 (conn (target s)))"
    using SwapTables_no_drop [of "tempTableName_of s" "engine_of (target s)" "TargetTable (config s)" "w2 (conn (target s))"]
    by (simp add: w3)
  from a b c show ?thesis by blast
qed

theorem swap_failure_leaves_temp_table_witness:
  "fst (syncTables ex_job (ex_world [] (\<lambda>i. False)))
     = Inl (Error ''table swap failed: swap tables failed'')
   \<and> tables (snd (snd (syncTables ex_job (ex_world [] (\<lambda>i. False)))) ''m'') ''t_temp''
     = Some [[''ID'' \<mapsto> Num 7]]"
proof -
  let ?w = "ex_world [] (\<lambda>i. False)"
  let ?cr = "on (target ex_job) (\<lambda>e. CreateTempTable e (TargetTable (config ex_job)) (tempTableName_of ex_job)
                   (targetSchema (processor ex_job))) ?w"
  let ?pd = "processData ex_job (tempTableName_of ex_job) (snd ?cr)"
  let ?sw = "on (target ex_job) (\<lambda>e. SwapTables e (TargetTable (config ex_job)) (tempTableName_of ex_job)) (snd (snd ?pd))"
  have "fst ?cr = Inr ()" by (simp add: ex_eval)
  then have cr: "?cr = (Inr (), snd ?cr)" by (cases ?cr) simp
  have "fst ?pd = Inr ()" by (simp add: ex_eval)
  then have pd: "?pd = (Inr (), fst (snd ?pd), snd (snd ?pd))" by (cases ?pd) simp
  have "fst ?sw = Inl (Error ''swap tables failed'')" by (simp add: ex_eval)
  then have sw: "?sw = (Inl (Error ''swap tables failed''), snd ?sw)" by (cases ?sw) simp
  have t: "tables (snd ?sw ''m'') ''t_temp'' = Some [[''ID'' \<mapsto> Num 7]]"
    by (simp add: ex_eval project_def fun_eq_iff)
  from swap_failure_leaves_temp_table [OF cr pd sw] t
  show ?thesis by simp
qed

section \<open>Copying a table in batches\<close>

lemma driver_nofault: "nofault d \<Longrightarrow> driver st d = run st (d\<lparr>trace := trace d @ [st]\<rparr>)"
  by (simp add: driver_def nofault_def)

lemma nofault_upd [simp]:
  "nofault (d\<lparr>trace := tr\<rparr>) = nofault d" "nofault (d\<lparr>pending := pe\<rparr>) = nofault d"
  "nofault (d\<lparr>tables := ta\<rparr>) = nofault d"
  by (simp_all add: nofault_def)

lemma commit_single_table:
  "commit (map (\<lambda>r. (t, [f r])) rs) (T0(t \<mapsto> T)) = T0(t \<mapsto> T @ map f rs)"
  by (induction rs arbitrary: T) simp_all

lemma insertEach_nofault:
  assumes "nofault d" "tables d t \<noteq> None"
  shows "insertEach t cols rs d =
           (True, d\<lparr>trace := trace d @ map (\<lambda>r. InsertRows t cols [r]) rs,
                     pending := pending d @ map (\<lambda>r. (t, [project cols r])) rs\<rparr>)"
  using assms
proof (induction rs arbitrary: d)
  case Nil
  show ?case by simp
next
  case (Cons a rs)
  let ?d1 = "d\<lparr>trace := trace d @ [InsertRows t cols [a]], pending := pending d @ [(t, [project cols a])]\<rparr>"
  have s1: "driver (InsertRows t cols [a]) d = (Done, ?d1)"
    using Cons.prems by (simp add: driver_nofault)
  have "nofault ?d1" "tables ?d1 t \<noteq> None" using Cons.prems by simp_all
  from Cons.IH [OF this] s1 show ?case by simp
qed

lemma InsertBatch_nofault:
  assumes nf: "nofault d" and ex: "tables d t = Some T" and ne: "batch \<noteq> []" and cs: "columns \<noteq> []"
  shows "InsertBatch e t batch columns d = (Inr (), inserted e t (set columns) batch d)"
proof -
  obtain a rs where b: "batch = a # rs" using ne by (cases batch) auto
  have ic: "insertColumns columns a = set columns" using cs by (simp add: insertColumns_def)
  show ?thesis
  proof (cases e)
    case MariaDB
    show ?thesis
      using nf ex
      by (simp add: MariaDB b ic driver_nofault inserted_def insertTrace_def)
  next
    case Oracle
    let ?d2 = "d\<lparr>trace := trace d @ [TxBegin, PrepareInsert t (set columns)], pending := []\<rparr>"
    have s1: "driver TxBegin d = (Done, d\<lparr>trace := trace d @ [TxBegin], pending := []\<rparr>)"
      using nf by (simp add: driver_nofault)
    have s2: "driver (PrepareInsert t (set columns)) (d\<lparr>trace := trace d @ [TxBegin], pending := []\<rparr>) = (Done, ?d2)"
      using nf ex by (simp add: driver_nofault)
    have p2: "nofault ?d2" "tables ?d2 t \<noteq> None" using nf ex by simp_all
    note s3 = insertEach_nofault [OF p2, of "set columns" "a # rs"]
    show ?thesis
      using s3 nf ex
      by (simp add: Oracle b ic s1 s2 driver_nofault commit_single_table inserted_def insertTrace_def
          del: insertEach.simps)
  qed
qed

lemma fold_txStep_insertTrace:
  "batch \<noteq> [] \<Longrightarrow> fold txStep (insertTrace e t cols batch) (n, sizes) = (0, sizes @ [length batch])"
proof -
  have m: "\<And>k. fold txStep (map (\<lambda>r. InsertRows t cols [r]) batch) (k, sizes) = (k + length batch, sizes)"
    by (induction batch) simp_all
  assume "batch \<noteq> []"
  then show ?thesis by (cases e) (simp_all add: insertTrace_def m)
qed

lemma map_filter_total: "\<forall>x. f x \<noteq> None \<Longrightarrow> List.map_filter f xs = map (\<lambda>x. the (f x)) xs"
  by (induction xs) (auto simp: List.map_filter_simps split: option.splits)

lemma buffer_reset: "buffer p = [] \<Longrightarrow> p\<lparr>buffer := []\<rparr> = p"
  by (cases p) simp

lemma Process_GetBatch_drains:
  assumes buf: "buffer p = []" and tot: "\<forall>r. fst (processRecord p r) \<noteq> None"
    and le: "int (length batch) \<le> b"
  shows "GetBatch (Process p batch) b = Inr (map (\<lambda>r. the (fst (processRecord p r))) batch, p)"
proof -
  have pb: "buffer (Process p batch) = map (\<lambda>r. the (fst (processRecord p r))) batch"
    using buf tot by (simp add: Process_def Process_loop_append map_filter_total)
  have "(Process p batch)\<lparr>buffer := []\<rparr> = p"
    using buffer_reset [OF buf] by (simp add: Process_def)
  with pb le show ?thesis
    by (auto simp: GetBatch_def Let_def len_def)
qed

lemma GetBatch_db_nofault:
  assumes nf: "nofault d" and tb: "tables d tbl = Some rows" and k: "0 \<le> k" and b: "0 < b"
    and ov: "k + b < 2 ^ 63"
    and ora: "e = Oracle \<longrightarrow> PrimaryKey ss \<noteq> [] \<and> PrimaryKey ss \<in> set (map Name (Columns ss))
                \<and> list_all (\<lambda>r. notNull (r (PrimaryKey ss))) rows"
  shows "GetBatch_db e tbl k b (Some ss) d =
           (Inr (map (selectCols (map Name (Columns ss))) (take (nat b) (drop (nat k) rows))),
            d\<lparr>trace := trace d @ [pageQuery e tbl k b ss]\<rparr>)"
proof (cases e)
  case MariaDB
  with nf tb k b show ?thesis
    by (simp add: GetBatch_db_def pageQuery_def driver_nofault)
next
  case Oracle
  have w: "wrap64 (k + b) = k + b" using k b ov by (simp add: wrap64_def)
  have "\<forall>r \<in> set (take (nat b) (drop (nat k) rows)). notNull (r (PrimaryKey ss))"
    using ora Oracle by (auto simp: list_all_iff dest!: in_set_takeD in_set_dropD)
  then have f: "filter (\<lambda>r. notNull (r (PrimaryKey ss))) (take (nat b) (drop (nat k) rows))
            = take (nat b) (drop (nat k) rows)"
    by (simp add: filter_id_conv)
  from nf tb k b ora Oracle show ?thesis
    by (simp add: GetBatch_db_def pageQuery_def driver_nofault w f)
qed

lemma txStep_pageQuery: "txStep (pageQuery e tbl k b ss) st = st"
  by (cases e; cases st; simp add: pageQuery_def)

lemma tables_inserted:
  "tables (inserted e t cols batch d) x =
     (if x = t then Some (the (tables d t) @ map (project cols) batch) else tables d x)"
  by (simp add: inserted_def)

lemma nofault_inserted [simp]: "nofault (inserted e t cols batch d) = nofault d"
  by (simp add: inserted_def)

lemma trace_inserted: "trace (inserted e t cols batch d) = trace d @ insertTrace e t cols batch"
  by (simp add: inserted_def)

lemma chunks_step: "0 < b \<Longrightarrow> 0 < n \<Longrightarrow> chunks b n = min b n # chunks (min b n) (n - min b n)"
  by (subst chunks.simps) simp

lemma chunks_0: "chunks b 0 = []"
  by (subst chunks.simps) simp

lemma streamLoop_copies:
  fixes s :: SyncService and t :: string and ss :: TableSchema and rows :: "Record list"
    and p :: DataProcessor and b0 :: int
  defines "cs \<equiv> conn (source s)" and "ct \<equiv> conn (target s)"
    and "g \<equiv> \<lambda>r. project (set (GetTargetColumns p))
                   (the (fst (processRecord p (selectCols (map Name (Columns ss)) r))))"
  assumes sch: "sourceSchema_s s = Some ss" and buf: "buffer p = []"
    and tot: "\<forall>r. fst (processRecord p r) \<noteq> None" and tc: "GetTargetColumns p \<noteq> []"
    and ora: "engine_of (source s) = Oracle \<longrightarrow>
                PrimaryKey ss \<noteq> [] \<and> PrimaryKey ss \<in> set (map Name (Columns ss))
                \<and> list_all (\<lambda>r. notNull (r (PrimaryKey ss))) rows"
    and sep: "conn (source s) = conn (target s) \<longrightarrow> SourceTable (config s) \<noteq> t"
    and big: "int (length rows) + b0 < 2 ^ 63"
  shows "tables (w cs) (SourceTable (config s)) = Some rows \<Longrightarrow> tables (w ct) t = Some T \<Longrightarrow>
         nofault (w cs) \<Longrightarrow> nofault (w ct) \<Longrightarrow> k \<le> length rows \<Longrightarrow> 0 < b \<Longrightarrow> b \<le> b0 \<Longrightarrow>
         n0 \<le> length (trace (w ct)) \<Longrightarrow> fold txStep (drop n0 (trace (w ct))) (0, []) = (0, sz) \<Longrightarrow>
         \<exists>w'. streamLoop s t (int (length rows)) p w (int k) b = (Inr (), p, w')
              \<and> tables (w' ct) t = Some (T @ map g (drop k rows))
              \<and> fold txStep (drop n0 (trace (w' ct))) (0, []) = (0, sz @ chunks (nat b) (length rows - k))
              \<and> (\<forall>c x. (c = ct \<longrightarrow> x \<noteq> t) \<longrightarrow> tables (w' c) x = tables (w c) x)"
proof (induction "length rows - k" arbitrary: k w b T sz rule: less_induct)
  case less
  let ?n = "length rows" and ?src = "SourceTable (config s)"
  show ?case
  proof (cases "k = ?n")
    case True
    have "streamLoop s t (int ?n) p w (int k) b = (Inr (), p, w)"
      by (subst streamLoop.simps) (simp add: True)
    with True less.prems show ?thesis by (simp add: chunks_0)
  next
    case False
    with less.prems have kn: "k < ?n" by simp
    define batch0 where "batch0 = take (nat b) (drop k rows)"
    define batch where "batch = map (selectCols (map Name (Columns ss))) batch0"
    define proc where "proc = map (\<lambda>r. the (fst (processRecord p r))) batch"
    define m where "m = min (nat b) (?n - k)"
    define q where "q = pageQuery (engine_of (source s)) ?src (int k) b ss"
    define w1 where "w1 = w(cs := (w cs)\<lparr>trace := trace (w cs) @ [q]\<rparr>)"
    define d2 where "d2 = inserted (engine_of (target s)) t (set (GetTargetColumns p)) proc (w1 ct)"
    define w2 where "w2 = w1(ct := d2)"
    have lenb: "length batch0 = m" by (simp add: batch0_def m_def min_def)
    have mpos: "0 < m" using kn less.prems by (simp add: m_def)
    have lproc: "length proc = m" using lenb by (simp add: proc_def batch_def)
    have ne: "proc \<noteq> []" using lproc mpos by auto
    have ov: "int k + b < 2 ^ 63" using big less.prems by simp
    have page: "on (source s) (\<lambda>e. GetBatch_db e ?src (int k) b (sourceSchema_s s)) w = (Inr batch, w1)"
      using GetBatch_db_nofault [of "w cs" ?src rows "int k" b "engine_of (source s)" ss]
        less.prems ora ov
      by (simp add: on_def sch cs_def batch_def batch0_def w1_def q_def)
    have le: "int (length batch) \<le> b" using less.prems by (auto simp: batch_def batch0_def)
    have drain: "GetBatch (Process p batch) b = Inr (proc, p)"
      unfolding proc_def using Process_GetBatch_drains [OF buf tot le] .
    have v_tab: "tables (w1 ct) = tables (w ct)" by (simp add: w1_def)
    have v_nf: "nofault (w1 ct)" using less.prems by (simp add: w1_def)
    have v_tr: "trace (w1 ct) = trace (w ct) @ (if cs = ct then [q] else [])" by (simp add: w1_def)
    have v_t: "tables (w1 ct) t = Some T" using less.prems v_tab by simp
    have ins: "on (target s) (\<lambda>e. InsertBatch e t proc (GetTargetColumns p)) w1 = (Inr (), w2)"
      using InsertBatch_nofault [OF v_nf v_t ne tc, of "engine_of (target s)"]
      by (simp add: on_def ct_def [symmetric] w2_def d2_def)
    have bs': "(if len proc < b then len proc else b) = int m"
      using lproc less.prems by (auto simp: len_def m_def min_def)
    have unfold: "streamLoop s t (int ?n) p w (int k) b
                    = streamLoop s t (int ?n) p w2 (int (k + m)) (int m)"
      using kn ne
      by (subst streamLoop.simps) (simp add: page drain ins bs' Let_def)
    \<comment> \<open>the state after the iteration\<close>
    have src2: "tables (w2 cs) ?src = Some rows"
      using less.prems sep
      by (auto simp: w2_def d2_def w1_def tables_inserted cs_def ct_def)
    have tgt2: "tables (w2 ct) t = Some (T @ map (project (set (GetTargetColumns p))) proc)"
      using v_t by (simp add: w2_def d2_def tables_inserted)
    have nf2: "nofault (w2 cs)" "nofault (w2 ct)"
      using less.prems v_nf by (auto simp: w2_def d2_def w1_def)
    have tr2: "trace (w2 ct) = trace (w ct) @ (if cs = ct then [q] else []) @ insertTrace (engine_of (target s)) t (set (GetTargetColumns p)) proc"
      using v_tr by (simp add: w2_def d2_def trace_inserted)
    have n02: "n0 \<le> length (trace (w2 ct))"
      using less.prems by (simp add: tr2)
    have sz2: "fold txStep (drop n0 (trace (w2 ct))) (0, []) = (0, sz @ [m])"
      using less.prems ne lproc
      by (simp add: tr2 q_def txStep_pageQuery fold_txStep_insertTrace)
    have frame2: "\<forall>c x. (c = ct \<longrightarrow> x \<noteq> t) \<longrightarrow> tables (w2 c) x = tables (w c) x"
      by (auto simp: w2_def d2_def w1_def tables_inserted)
    have meas: "?n - (k + m) < ?n - k" using mpos kn by arith
    have kk: "k + m \<le> ?n" using kn unfolding m_def by arith
    have mb: "0 < int m" "int m \<le> b0" using mpos less.prems by (auto simp: m_def)
    from less.hyps [OF meas src2 tgt2 nf2 kk mb n02 sz2]
    obtain w' where
      r: "streamLoop s t (int ?n) p w2 (int (k + m)) (int m) = (Inr (), p, w')"
      and tt: "tables (w' ct) t = Some ((T @ map (project (set (GetTargetColumns p))) proc) @ map g (drop (k + m) rows))"
      and zz: "fold txStep (drop n0 (trace (w' ct))) (0, []) = (0, (sz @ [m]) @ chunks (nat (int m)) (?n - (k + m)))"
      and ff: "\<forall>c x. (c = ct \<longrightarrow> x \<noteq> t) \<longrightarrow> tables (w' c) x = tables (w2 c) x"
      by blast
    have pg: "map (project (set (GetTargetColumns p))) proc = map g batch0"
      by (simp add: g_def proc_def batch_def)
    have dd: "drop k rows = batch0 @ drop (k + m) rows"
    proof -
      have "drop (k + m) rows = drop m (drop k rows)" by (simp only: drop_drop add.commute)
      moreover have "batch0 = take m (drop k rows)" by (simp add: batch0_def m_def min_def)
      ultimately show ?thesis by (simp only: append_take_drop_id)
    qed
    have t': "tables (w' ct) t = Some (T @ map g (drop k rows))"
    proof -
      have "map g (drop k rows) = map g batch0 @ map g (drop (k + m) rows)"
        by (subst dd) (simp only: map_append)
      then show ?thesis unfolding tt pg by simp
    qed
    have ch: "chunks (nat b) (?n - k) = m # chunks m (?n - k - m)"
      using chunks_step [of "nat b" "?n - k"] less.prems kn by (simp add: m_def)
    have z': "fold txStep (drop n0 (trace (w' ct))) (0, []) = (0, sz @ chunks (nat b) (?n - k))"
      unfolding zz ch by simp
    have f': "\<forall>c x. (c = ct \<longrightarrow> x \<noteq> t) \<longrightarrow> tables (w' c) x = tables (w c) x"
      using ff frame2 by simp
    from unfold r t' z' f' show ?thesis by simp
  qed
qed

lemma GetCount_world:
  assumes "fst (on c (\<lambda>e. GetCount e (Some ss)) w) = Inr n"
  shows "\<exists>st. on c (\<lambda>e. GetCount e (Some ss)) w = (Inr n, w(conn c := (w (conn c))\<lparr>trace := trace (w (conn c)) @ [st]\<rparr>))
             \<and> (\<forall>x. txStep st x = x)"
proof -
  let ?st = "SelectCount (case Columns ss of [] \<Rightarrow> ''*'' | c # x \<Rightarrow> Name c) (PrimaryKey ss)"
  let ?d = "w (conn c)"
  obtain r1 d1 where s1: "driver ?st ?d = (r1, d1)" by (cases "driver ?st ?d")
  from assms s1 have r1: "r1 = Count n"
    by (cases r1) (simp_all add: on_def GetCount_def Let_def)
  with driver_cases [OF s1] have "run ?st (?d\<lparr>trace := trace ?d @ [?st]\<rparr>) = (Count n, d1)" by simp
  then have "d1 = ?d\<lparr>trace := trace ?d @ [?st]\<rparr>" by (auto split: option.splits)
  with s1 r1 have "on c (\<lambda>e. GetCount e (Some ss)) w = (Inr n, w(conn c := ?d\<lparr>trace := trace ?d @ [?st]\<rparr>))"
    by (simp add: on_def GetCount_def Let_def)
  moreover have "\<forall>x. txStep ?st x = x" by auto
  ultimately show ?thesis by blast
qed

lemma chunks_300_1000: "chunks 300 1000 = [300, 300, 300, 100]"
  by (simp add: chunks_step chunks_0)

text \<open>
  Claim C4 fails on the code. \<open>GetCount\<close> counts the rows of the table named by the
  \<open>PrimaryKey\<close> field of the source schema, not of the source table. Here the source
  table \<open>SRC\<close> holds 1000 rows, the batch size is 300, no connection fails and the
  primary key of the source schema is the column \<open>ID\<close>, as the schema reader of the
  connectors sets it: the count query fails, the cycle is reported failed, no batch is
  inserted and the live table keeps its old rows.
\<close>

theorem count_query_reads_primary_key_name:
  "map_option length (tables (ex_stream_world (replicate 1000 [''ID'' \<mapsto> Num 1]) (\<lambda>i. False) [(''t'', [ex_old])] ''src'') ''SRC'')
     = Some 1000
   \<and> BatchSize (config (ex_stream ''ID'' 300)) = 300
   \<and> fst (syncTables (ex_stream ''ID'' 300)
            (ex_stream_world (replicate 1000 [''ID'' \<mapsto> Num 1]) (\<lambda>i. False) [(''t'', [ex_old])]))
       = Inl (Error ''data processing failed: count query failed'')
   \<and> batchSizes (trace (snd (snd (syncTables (ex_stream ''ID'' 300)
            (ex_stream_world (replicate 1000 [''ID'' \<mapsto> Num 1]) (\<lambda>i. False) [(''t'', [ex_old])]))) ''m''))
       = []
   \<and> tables (snd (snd (syncTables (ex_stream ''ID'' 300)
            (ex_stream_world (replicate 1000 [''ID'' \<mapsto> Num 1]) (\<lambda>i. False) [(''t'', [ex_old])]))) ''m'')
       = [''t'' \<mapsto> [ex_old]]"
  by (simp add: syncTables_def tempTableName_of_def processData_def ex_stream_def ex_stream_world_def
      ex_db_def ex_schema_def on_def GetCount_def createStmt_def DropTable_def wrapErr_def
      driver_def Let_def ex_col_def HasPreloadedData_def NewDataProcessor_def WithSchemas_def
      createColumnMapping_def batchSizes_def fun_eq_iff)

text \<open>
  Where the count query does answer the number of rows of the source table, the loop
  copies it as described. For every streaming job (no preloaded data, empty buffer) with
  batch size 300 whose source table holds exactly 1000 rows, whose count query answers
  1000, whose transform drops no record, whose target column list is not empty, and whose
  source and target connections do not fail (for an Oracle source, the primary key is a
  column that is not null in any row): \<open>processData\<close> succeeds, the insert transactions it
  sends to the target carry 300, 300, 300 and 100 rows in that order, the temp table ends
  with its former rows followed by the 1000 processed source rows, each once and in the
  order of the source table, and no other table changes.
\<close>

lemma thousand_rows_in_four_batches:
  assumes pre: "\<not> HasPreloadedData (processor s)" and buf: "buffer (processor s) = []"
    and bs: "BatchSize (config s) = 300"
    and sch: "sourceSchema_s s = Some ss"
    and src: "tables (w (conn (source s))) (SourceTable (config s)) = Some rows"
    and n: "length rows = 1000"
    and cnt: "fst (on (source s) (\<lambda>e. GetCount e (sourceSchema_s s)) w) = Inr 1000"
    and tot: "\<forall>r. fst (processRecord (processor s) r) \<noteq> None"
    and tc: "GetTargetColumns (processor s) \<noteq> []"
    and ora: "engine_of (source s) = Oracle \<longrightarrow>
                PrimaryKey ss \<noteq> [] \<and> PrimaryKey ss \<in> set (map Name (Columns ss))
                \<and> list_all (\<lambda>r. notNull (r (PrimaryKey ss))) rows"
    and sep: "conn (source s) = conn (target s) \<longrightarrow> SourceTable (config s) \<noteq> t"
    and nfs: "\<forall>i. \<not> faulty (w (conn (source s))) i" and nft: "\<forall>i. \<not> faulty (w (conn (target s))) i"
    and tmp: "tables (w (conn (target s))) t = Some T"
    and fin: "w' = snd (snd (processData s t w))"
  shows "processData s t w = (Inr (), processor s, w')
         \<and> tables (w' (conn (target s))) t
             = Some (T @ map (\<lambda>r. project (set (GetTargetColumns (processor s)))
                                  (the (fst (processRecord (processor s)
                                              (selectCols (map Name (Columns ss)) r))))) rows)
         \<and> batchSizes (drop (length (trace (w (conn (target s))))) (trace (w' (conn (target s)))))
             = [300, 300, 300, 100]
         \<and> (\<forall>c x. (c = conn (target s) \<longrightarrow> x \<noteq> t) \<longrightarrow> tables (w' c) x = tables (w c) x)"
proof -
  let ?cs = "conn (source s)" and ?ct = "conn (target s)"
  from GetCount_world [of "source s" ss w 1000] cnt sch obtain st where
    c1: "on (source s) (\<lambda>e. GetCount e (sourceSchema_s s)) w
           = (Inr 1000, w(?cs := (w ?cs)\<lparr>trace := trace (w ?cs) @ [st]\<rparr>))"
    and st: "\<forall>x. txStep st x = x"
    by auto
  define w1 where "w1 = w(?cs := (w ?cs)\<lparr>trace := trace (w ?cs) @ [st]\<rparr>)"
  have pd: "processData s t w = streamLoop s t 1000 (processor s) w1 0 300"
    using pre by (simp add: processData_def c1 bs w1_def)
  have a1: "tables (w1 ?cs) (SourceTable (config s)) = Some rows" using src by (simp add: w1_def)
  have a2: "tables (w1 ?ct) t = Some T" using tmp by (auto simp: w1_def)
  have a3: "nofault (w1 ?cs)" "nofault (w1 ?ct)" using nfs nft by (auto simp: w1_def nofault_def)
  have a4: "length (trace (w ?ct)) \<le> length (trace (w1 ?ct))" by (simp add: w1_def)
  have a5: "fold txStep (drop (length (trace (w ?ct))) (trace (w1 ?ct))) (0, []) = (0, [])"
    using st by (simp add: w1_def)
  have big: "int (length rows) + 300 < 2 ^ 63" using n by simp
  from streamLoop_copies [OF sch buf tot tc ora sep big a1 a2 a3, of 0 300 "length (trace (w ?ct))" "[]"] a4 a5
  obtain w2 where
    r: "streamLoop s t (int (length rows)) (processor s) w1 (int 0) 300 = (Inr (), processor s, w2)"
    and tt: "tables (w2 ?ct) t
             = Some (T @ map (\<lambda>r. project (set (GetTargetColumns (processor s)))
                                  (the (fst (processRecord (processor s)
                                              (selectCols (map Name (Columns ss)) r))))) (drop 0 rows))"
    and zz: "fold txStep (drop (length (trace (w ?ct))) (trace (w2 ?ct))) (0, [])
               = (0, [] @ chunks (nat 300) (length rows - 0))"
    and ff: "\<forall>c x. (c = ?ct \<longrightarrow> x \<noteq> t) \<longrightarrow> tables (w2 c) x = tables (w1 c) x"
    by auto
  from r n pd have res: "processData s t w = (Inr (), processor s, w2)" by simp
  with fin have w': "w' = w2" by simp
  have f1: "\<forall>c x. tables (w1 c) x = tables (w c) x" by (simp add: w1_def)
  from zz n have sizes: "batchSizes (drop (length (trace (w ?ct))) (trace (w2 ?ct))) = [300, 300, 300, 100]"
    by (simp add: batchSizes_def chunks_300_1000)
  from res tt sizes ff f1 show ?thesis unfolding w' by simp
qed

lemma thousand_rows_in_four_batches_example:
  "fst (processData (ex_stream ''SRC'' 300) ''t_temp'' (ex_stream_world (replicate 1000 [''ID'' \<mapsto> Num 1]) (\<lambda>i. False) [(''t_temp'', [])])) = Inr ()
   \<and> batchSizes (trace (snd (snd (processData (ex_stream ''SRC'' 300) ''t_temp'' (ex_stream_world (replicate 1000 [''ID'' \<mapsto> Num 1]) (\<lambda>i. False) [(''t_temp'', [])]))) ''m''))
       = [300, 300, 300, 100]
   \<and> map_option length (tables (snd (snd (processData (ex_stream ''SRC'' 300) ''t_temp'' (ex_stream_world (replicate 1000 [''ID'' \<mapsto> Num 1]) (\<lambda>i. False) [(''t_temp'', [])]))) ''m'') ''t_temp'')
       = Some 1000"
proof -
  let ?w = "ex_stream_world (replicate 1000 [''ID'' \<mapsto> Num 1]) (\<lambda>i. False) [(''t_temp'', [])]"
  let ?ss = "\<lparr>Columns = [ex_col ''ID''], PrimaryKey = ''SRC'', Indexes = []\<rparr>"
  let ?rows = "replicate 1000 [''ID'' \<mapsto> Num 1]"
  have p: "processor (ex_stream ''SRC'' 300) =
      \<lparr>buffer = [], sourceData = [], transform = Some identityTransform,
       sourceSchema = Some ?ss, targetSchema = Some (ex_schema [''id'']),
       columnMapping = [''ID'' \<mapsto> ''id''], dataLoaded = False\<rparr>"
    by (simp add: ex_stream_def NewDataProcessor_def WithSchemas_def createColumnMapping_def
        ex_schema_def ex_col_def GetColumnName_def ToLower_def RemoveUnderscores_def ToLower_char_def)
  have h1: "\<not> HasPreloadedData (processor (ex_stream ''SRC'' 300))" "buffer (processor (ex_stream ''SRC'' 300)) = []"
    "\<forall>r. fst (processRecord (processor (ex_stream ''SRC'' 300)) r) \<noteq> None"
    "GetTargetColumns (processor (ex_stream ''SRC'' 300)) \<noteq> []"
    by (simp_all add: p HasPreloadedData_def processRecord_def identityTransform_def
        GetTargetColumns_def ex_schema_def ex_col_def)
  have h2: "BatchSize (config (ex_stream ''SRC'' 300)) = 300" "sourceSchema_s (ex_stream ''SRC'' 300) = Some ?ss"
    "engine_of (source (ex_stream ''SRC'' 300)) = Oracle \<longrightarrow>
       PrimaryKey ?ss \<noteq> [] \<and> PrimaryKey ?ss \<in> set (map Name (Columns ?ss))
       \<and> list_all (\<lambda>r. notNull (r (PrimaryKey ?ss))) ?rows"
    "conn (source (ex_stream ''SRC'' 300)) = conn (target (ex_stream ''SRC'' 300)) \<longrightarrow> SourceTable (config (ex_stream ''SRC'' 300)) \<noteq> ''t_temp''"
    "conn (target (ex_stream ''SRC'' 300)) = ''m''"
    by (simp_all add: ex_stream_def)
  have h3: "tables (?w (conn (source (ex_stream ''SRC'' 300)))) (SourceTable (config (ex_stream ''SRC'' 300))) = Some ?rows"
    "length ?rows = 1000"
    "\<forall>i. \<not> faulty (?w (conn (source (ex_stream ''SRC'' 300)))) i"
    "\<forall>i. \<not> faulty (?w (conn (target (ex_stream ''SRC'' 300)))) i"
    "tables (?w (conn (target (ex_stream ''SRC'' 300)))) ''t_temp'' = Some []"
    "trace (?w ''m'') = []"
    by (simp_all add: ex_stream_def ex_stream_world_def ex_db_def)
  have h4: "fst (on (source (ex_stream ''SRC'' 300)) (\<lambda>e. GetCount e (sourceSchema_s (ex_stream ''SRC'' 300))) ?w) = Inr 1000"
    by (simp add: ex_stream_def ex_stream_world_def ex_db_def on_def GetCount_def driver_def Let_def
        ex_col_def notNull_def len_def)
  note r = thousand_rows_in_four_batches [OF h1(1,2) h2(1,2) h3(1,2) h4 h1(3,4) h2(3,4) h3(3,4,5) refl]
  from r have "fst (processData (ex_stream ''SRC'' 300) ''t_temp'' ?w) = Inr ()"
    by (metis fst_conv)
  moreover from r have "batchSizes (trace (snd (snd (processData (ex_stream ''SRC'' 300) ''t_temp'' ?w)) ''m''))
       = [300, 300, 300, 100]"
    by (simp only: h2(5) h3(6) list.size drop_0)
  moreover from r have "map_option length (tables (snd (snd (processData (ex_stream ''SRC'' 300) ''t_temp'' ?w)) ''m'') ''t_temp'')
       = Some 1000"
    by (simp only: h2(5) append_Nil option.map length_map length_replicate)
  ultimately show ?thesis by simp
qed

end
